theory Spec2Isabelle
  imports Complex_Main
begin

section \<open>JavaScript values\<close>

text \<open>
  The catalog application (app.js) keeps untyped JavaScript values: whatever a manifest,
  an imported file or the browser storage holds ends up in \<open>state.books\<close>. Values are
  therefore modelled untyped. A finite number is an exact rational (the byte sizes,
  timestamps and thresholds of the application are integers or short decimals; rounding
  to binary64 is not modelled); the non-finite numbers are separate constructors.
  An object is the list of its own properties in insertion order.
\<close>

datatype jsnum = Fin rat | NaN | PosInf | NegInf

datatype jsval =
    Undefined
  | Null
  | Bool bool
  | Num jsnum
  | Str string
  | Arr "jsval list"
  | Obj "(string \<times> jsval) list"

datatype error = TypeError | SyntaxError | InvalidJSON

text \<open>Truthiness, as \<open>!x\<close>, \<open>x || y\<close>, \<open>if (x)\<close> and \<open>filter(Boolean)\<close> read it.\<close>

fun truthy :: "jsval \<Rightarrow> bool" where
  "truthy Undefined = False"
| "truthy Null = False"
| "truthy (Bool b) = b"
| "truthy (Num (Fin r)) = (r \<noteq> 0)"
| "truthy (Num NaN) = False"
| "truthy (Num PosInf) = True"
| "truthy (Num NegInf) = True"
| "truthy (Str s) = (s \<noteq> [])"
| "truthy (Arr xs) = True"
| "truthy (Obj kvs) = True"

definition js_or :: "jsval \<Rightarrow> jsval \<Rightarrow> jsval" where
  "js_or a b = (if truthy a then a else b)"

text \<open>\<open>Number.isFinite\<close>: no coercion, true of finite numbers only.\<close>

fun isFinite :: "jsval \<Rightarrow> bool" where
  "isFinite (Num (Fin r)) = True"
| "isFinite v = False"

text \<open>\<open>typeof v === 'number'\<close>.\<close>

fun is_number :: "jsval \<Rightarrow> bool" where
  "is_number (Num n) = True"
| "is_number v = False"

text \<open>
  \<open>a === b\<close>. NaN differs from itself. Arrays and objects are compared by identity in
  JavaScript; the model has no identities for the values held inside the catalog and
  compares them by structure.
\<close>

fun strict_eq :: "jsval \<Rightarrow> jsval \<Rightarrow> bool" where
  "strict_eq (Num NaN) b = False"
| "strict_eq a (Num NaN) = False"
| "strict_eq a b = (a = b)"

subsection \<open>Properties\<close>

fun lookup :: "(string \<times> 'v) list \<Rightarrow> string \<Rightarrow> 'v option" where
  "lookup [] k = None"
| "lookup ((k', v) # kvs) k = (if k' = k then Some v else lookup kvs k)"

text \<open>Assignment \<open>o.k = v\<close>: an existing property keeps its place, a new one goes last.\<close>

fun set_prop :: "string \<Rightarrow> 'v \<Rightarrow> (string \<times> 'v) list \<Rightarrow> (string \<times> 'v) list" where
  "set_prop k v [] = [(k, v)]"
| "set_prop k v ((k', v') # kvs) =
     (if k' = k then (k, v) # kvs else (k', v') # set_prop k v kvs)"

definition set_props :: "(string \<times> 'v) list \<Rightarrow> (string \<times> 'v) list \<Rightarrow> (string \<times> 'v) list" where
  "set_props new kvs = foldl (\<lambda>acc kv. set_prop (fst kv) (snd kv) acc) kvs new"

text \<open>Reading a property of \<open>undefined\<close> or \<open>null\<close> throws a TypeError.\<close>

fun nullish :: "jsval \<Rightarrow> bool" where
  "nullish Undefined = True"
| "nullish Null = True"
| "nullish v = False"

text \<open>
  \<open>v.k\<close> on a value that is not nullish, for the property names the application reads
  (id, title, author, field, tags, description, path, filename, sizeBytes, addedAt,
  metadataSource, length): none of them is inherited from a prototype except
  \<open>length\<close> of arrays and strings.
\<close>

fun get_prop :: "jsval \<Rightarrow> string \<Rightarrow> jsval" where
  "get_prop (Obj kvs) k = (case lookup kvs k of Some v \<Rightarrow> v | None \<Rightarrow> Undefined)"
| "get_prop (Arr xs) k = (if k = ''length'' then Num (Fin (of_nat (length xs))) else Undefined)"
| "get_prop (Str s) k = (if k = ''length'' then Num (Fin (of_nat (length s))) else Undefined)"
| "get_prop v k = Undefined"

subsection \<open>Strings\<close>

definition is_space :: "char \<Rightarrow> bool" where
  "is_space c = (c = CHR '' '' \<or> c = CHR 0x09 \<or> c = CHR 0x0A \<or> c = CHR 0x0B
                 \<or> c = CHR 0x0C \<or> c = CHR 0x0D)"

text \<open>\<open>s.trim()\<close>, over the ASCII white space.\<close>

definition trim :: "string \<Rightarrow> string" where
  "trim s = rev (dropWhile is_space (rev (dropWhile is_space s)))"

text \<open>\<open>s.split(c)\<close> for a one-character separator: never empty.\<close>

fun split_on :: "char \<Rightarrow> string \<Rightarrow> string list" where
  "split_on c [] = [[]]"
| "split_on c (x # xs) =
     (if x = c then [] # split_on c xs
      else (case split_on c xs of [] \<Rightarrow> [[x]] | y # ys \<Rightarrow> (x # y) # ys))"

text \<open>\<open>s.includes(q)\<close>.\<close>

fun str_includes :: "string \<Rightarrow> string \<Rightarrow> bool" where
  "str_includes [] q = (q = [])"
| "str_includes (x # xs) q = (take (length q) (x # xs) = q \<or> str_includes xs q)"

definition is_digit :: "char \<Rightarrow> bool" where
  "is_digit c = (48 \<le> (of_char c :: nat) \<and> (of_char c :: nat) \<le> 57)"

definition digits_value :: "string \<Rightarrow> nat" where
  "digits_value ds = foldl (\<lambda>a c. 10 * a + (of_char c - 48)) 0 ds"

text \<open>An optional sign in front of a numeric literal: (negative, rest).\<close>

fun take_sign :: "string \<Rightarrow> bool \<times> string" where
  "take_sign [] = (False, [])"
| "take_sign (c # cs) =
     (if c = CHR ''-'' then (True, cs) else if c = CHR ''+'' then (False, cs)
      else (False, c # cs))"

text \<open>
  \<open>parseInt(s, 10)\<close>: leading white space, an optional sign, the longest run of decimal
  digits; NaN when there is no digit.
\<close>

definition parseInt10 :: "string \<Rightarrow> jsval" where
  "parseInt10 s =
     (let (neg, u) = take_sign (dropWhile is_space s);
          ds = takeWhile is_digit u
      in if ds = [] then Num NaN
         else Num (Fin (if neg then - of_nat (digits_value ds) else of_nat (digits_value ds))))"

text \<open>
  \<open>parseFloat(s)\<close>: leading white space, an optional sign, then \<open>Infinity\<close> or the
  longest prefix that is a decimal literal (digits, an optional fraction, an optional
  exponent that counts only when it has a digit); NaN when there is none. The value is
  the literal's exact rational.
\<close>

definition exponent_part :: "string \<Rightarrow> int" where
  "exponent_part r =
     (case r of
        [] \<Rightarrow> 0
      | c # cs \<Rightarrow>
          if c = CHR ''e'' \<or> c = CHR ''E'' then
            (let (neg, u) = take_sign cs; ds = takeWhile is_digit u
             in if ds = [] then 0
                else if neg then - int (digits_value ds) else int (digits_value ds))
          else 0)"

definition scale10 :: "rat \<Rightarrow> int \<Rightarrow> rat" where
  "scale10 m e = (if 0 \<le> e then m * 10 ^ nat e else m / 10 ^ nat (- e))"

definition parseFloat :: "string \<Rightarrow> jsval" where
  "parseFloat s =
     (let (neg, u) = take_sign (dropWhile is_space s) in
      if take 8 u = ''Infinity'' then Num (if neg then NegInf else PosInf)
      else
        let ds = takeWhile is_digit u;
            r = dropWhile is_digit u;
            has_dot = (r \<noteq> [] \<and> hd r = CHR ''.'');
            fs = (if has_dot then takeWhile is_digit (tl r) else []);
            r' = (if has_dot then dropWhile is_digit (tl r) else r);
            m = of_nat (digits_value ds) + of_nat (digits_value fs) / 10 ^ length fs;
            v = scale10 m (exponent_part r')
        in if ds = [] \<and> fs = [] then Num NaN
           else Num (Fin (if neg then - v else v)))"

section \<open>JSON\<close>

text \<open>
  A JSON document is kept as its syntax tree. A text handed to \<open>JSON.parse\<close> (a stored
  item, a response body, an imported file) is the empty string, a text that is no JSON
  (\<open>JSON.parse\<close> throws a SyntaxError on both) or a document.
\<close>

datatype json =
    JNull
  | JBool bool
  | JNumber rat
  | JString string
  | JArray "json list"
  | JObject "(string \<times> json) list"

datatype jstext = EmptyText | Garbage | Doc json

text \<open>
  \<open>JSON.stringify\<close>: a property whose value is \<open>undefined\<close> is left out; \<open>undefined\<close>
  in an array and every non-finite number become \<open>null\<close>.
\<close>

fun to_json :: "jsval \<Rightarrow> json" where
  "to_json Undefined = JNull"
| "to_json Null = JNull"
| "to_json (Bool b) = JBool b"
| "to_json (Num (Fin r)) = JNumber r"
| "to_json (Num n) = JNull"
| "to_json (Str s) = JString s"
| "to_json (Arr xs) = JArray (map to_json xs)"
| "to_json (Obj kvs) =
     JObject (map (\<lambda>(k, v). (k, to_json v)) (filter (\<lambda>(k, v). v \<noteq> Undefined) kvs))"

text \<open>The value \<open>JSON.parse\<close> builds: a repeated key keeps its first place and last value.\<close>

fun from_json :: "json \<Rightarrow> jsval" where
  "from_json JNull = Null"
| "from_json (JBool b) = Bool b"
| "from_json (JNumber r) = Num (Fin r)"
| "from_json (JString s) = Str s"
| "from_json (JArray js) = Arr (map from_json js)"
| "from_json (JObject kvs) =
     Obj (foldl (\<lambda>acc (k, j). set_prop k (from_json j) acc) [] kvs)"

text \<open>
  \<open>JSON.stringify(undefined)\<close> is \<open>undefined\<close>, which a storage item or a file holds
  as the text "undefined": no JSON.
\<close>

definition JSON_stringify :: "jsval \<Rightarrow> jstext" where
  "JSON_stringify v = (if v = Undefined then Garbage else Doc (to_json v))"

definition JSON_parse :: "jstext \<Rightarrow> error + jsval" where
  "JSON_parse t = (case t of Doc j \<Rightarrow> Inr (from_json j) | _ \<Rightarrow> Inl SyntaxError)"

section \<open>The host\<close>

text \<open>
  What the browser, the locale and the two libraries decide is a parameter of the model:
  locale-aware comparison and case mapping, the conversion of a value that is no string
  to a string and of a value that is no number to a number, \<open>encodeURI\<close>, the order of
  \<open>sort()\<close> without a comparator, the Fuse.js constructor (which may throw) and its
  search over a collection, and, for the i-th record of a load, the results of
  \<open>uniqueId()\<close> and \<open>Date.now()\<close>, and the message of an error the engine throws.
  The conversions and \<open>encodeURI\<close> are taken to return, and the search to read its
  collection without writing to it.
\<close>

record host =
  localeCompare :: "string \<Rightarrow> string \<Rightarrow> int"
  toLowerCase :: "string \<Rightarrow> string"
  toString :: "jsval \<Rightarrow> string"
  toNumber :: "jsval \<Rightarrow> jsnum"
  encodeURI :: "string \<Rightarrow> string"
  plain_sort :: "jsval list \<Rightarrow> jsval list"
  Fuse_new :: "jsval \<Rightarrow> jsval \<Rightarrow> error option"
  Fuse_search :: "jsval \<Rightarrow> jsval \<Rightarrow> string \<Rightarrow> error + jsval list"
  uniqueId :: "nat \<Rightarrow> string"
  Date_now :: "nat \<Rightarrow> rat"
  engine_message :: "error \<Rightarrow> string"

definition to_str :: "host \<Rightarrow> jsval \<Rightarrow> string" where
  "to_str H v = (case v of Str s \<Rightarrow> s | _ \<Rightarrow> toString H v)"

definition to_num :: "host \<Rightarrow> jsval \<Rightarrow> jsnum" where
  "to_num H v = (case v of Num n \<Rightarrow> n | _ \<Rightarrow> toNumber H v)"

section \<open>Configuration and state\<close>

definition DEFAULT_CONFIG :: "(string \<times> jsval) list" where
  "DEFAULT_CONFIG =
     [(''rootFolder'', Str ''Books''),
      (''fuzzySearch'', Bool True),
      (''searchThreshold'', Num (Fin (2 / 5))),
      (''maxViewerSizeMB'', Num (Fin 10))]"

definition LS_CONFIG :: string where
  "LS_CONFIG = ''library_config_v1''"

definition LS_BOOKS :: string where
  "LS_BOOKS = ''library_books_v1''"

record pdf_state =
  pdf_url :: jsval
  pdfDoc :: bool
  pageNum :: nat
  pageCount :: nat
  pdf_scale :: rat
  minScale :: rat
  maxScale :: rat
  step :: rat
  pdf_title :: jsval

text \<open>The controls and panels of the page that the code reads and writes.\<close>

record page =
  searchInput :: string
  fieldFilter :: string
  sortSelect :: string
  fieldOptions :: "string list"
  tagButtons :: "jsval list"
  loadingIndicator :: bool
  grid :: "jsval list"
  emptyState :: bool
  resultsCount :: nat
  totalSize :: rat
  editTitle :: string
  editAuthor :: string
  editField :: string
  editTags :: string
  editDescription :: string
  editModal :: bool
  rootFolderInput :: string
  fuzzySearchBox :: bool
  searchThresholdInput :: string
  maxViewerSizeInput :: string
  configModal :: bool
  modalTitle :: jsval
  pdfModal :: bool

text \<open>
  The global \<open>state\<close> object, \<open>editingId\<close>, the browser storage, the page, and the
  log of what the user was shown: blocking notifications (\<open>alert\<close>), browsing contexts
  opened (\<open>window.open\<close>) and files offered for download.

  Arrays that the state refers to live in a store, so that an in-place update
  (\<open>list.sort\<close>, \<open>state.books[idx] = updated\<close>) reaches every reference to the array
  and no other array: \<open>books\<close>, \<open>filteredBooks\<close> and the collection of the search
  index are addresses. \<open>next_ref\<close> is the first address not yet allocated.
\<close>

record app =
  config :: "(string \<times> jsval) list"
  store :: "nat \<Rightarrow> jsval"
  next_ref :: nat
  books :: nat
  filteredBooks :: nat
  activeTags :: "jsval list"
  facet_fields :: "jsval list"
  facet_tags :: "jsval list"
  fuse :: "(nat \<times> jsval) option"
  pdf :: pdf_state
  editingId :: jsval
  localStorage :: "string \<Rightarrow> jstext option"
  ui :: page
  alerts :: "string list"
  opened :: "string list"
  downloads :: "jstext list"

definition alloc :: "jsval \<Rightarrow> app \<Rightarrow> app \<times> nat" where
  "alloc v w =
     (w\<lparr>store := (store w)(next_ref w := v), next_ref := Suc (next_ref w)\<rparr>, next_ref w)"

text \<open>The value of \<open>state.books\<close>.\<close>

definition catalog :: "app \<Rightarrow> jsval" where
  "catalog w = store w (books w)"

text \<open>\<open>state.books = v\<close> for a value just built.\<close>

definition assign_books :: "jsval \<Rightarrow> app \<Rightarrow> app" where
  "assign_books v w = (case alloc v w of (w', r) \<Rightarrow> w'\<lparr>books := r\<rparr>)"

text \<open>
  A procedure returns the state it reached and the exception it threw, if any: what it
  wrote before throwing stays written.
\<close>

definition and_then ::
  "app \<times> error option \<Rightarrow> (app \<Rightarrow> app \<times> error option) \<Rightarrow> app \<times> error option" where
  "and_then r f = (case r of (w, None) \<Rightarrow> f w | (w, Some e) \<Rightarrow> (w, Some e))"

section \<open>Persistence\<close>

definition saveConfig :: "app \<Rightarrow> app" where
  "saveConfig w =
     w\<lparr>localStorage := (localStorage w)(LS_CONFIG \<mapsto> JSON_stringify (Obj (config w)))\<rparr>"

definition saveBooks :: "app \<Rightarrow> app" where
  "saveBooks w =
     w\<lparr>localStorage := (localStorage w)(LS_BOOKS \<mapsto> JSON_stringify (catalog w))\<rparr>"

definition loadBooks :: "app \<Rightarrow> app" where
  "loadBooks w =
     (case localStorage w LS_BOOKS of
        None \<Rightarrow> w
      | Some EmptyText \<Rightarrow> w
      | Some t \<Rightarrow>
          (case JSON_parse t of
             Inr v \<Rightarrow> assign_books v w
           | Inl e \<Rightarrow> assign_books (Arr []) w))"

section \<open>Search index and facets\<close>

text \<open>
  \<open>initFuse\<close>: no index when fuzzy search is off or the catalog has length 0 (reading
  \<open>length\<close> of a nullish catalog throws); otherwise the index is built over the catalog
  array itself, with the configured threshold.
\<close>

definition initFuse :: "host \<Rightarrow> app \<Rightarrow> app \<times> error option" where
  "initFuse H w =
     (if \<not> truthy (get_prop (Obj (config w)) ''fuzzySearch'') then (w\<lparr>fuse := None\<rparr>, None)
      else if nullish (catalog w) then (w, Some TypeError)
      else if strict_eq (get_prop (catalog w) ''length'') (Num (Fin 0))
      then (w\<lparr>fuse := None\<rparr>, None)
      else
        (case Fuse_new H (catalog w) (get_prop (Obj (config w)) ''searchThreshold'') of
           Some e \<Rightarrow> (w, Some e)
         | None \<Rightarrow>
             (w\<lparr>fuse := Some (books w, get_prop (Obj (config w)) ''searchThreshold'')\<rparr>,
              None)))"

text \<open>\<open>new Set(xs)\<close>: the distinct elements in the order of their first occurrence.\<close>

definition new_Set :: "jsval list \<Rightarrow> jsval list" where
  "new_Set xs = foldl (\<lambda>acc x. if x \<in> set acc then acc else acc @ [x]) [] xs"

text \<open>What \<open>flatMap\<close> appends for one callback result: an array's elements, or the value.\<close>

fun flat_item :: "jsval \<Rightarrow> jsval list" where
  "flat_item (Arr ys) = ys"
| "flat_item v = [v]"

text \<open>
  \<open>rebuildFacets\<close>: \<open>state.books.map\<close> throws unless the catalog is an array, and
  reading \<open>b.field\<close> throws on a nullish element, before anything is written. Setting
  the value of the field selector to a value that is none of its options leaves it
  empty.
\<close>

definition rebuildFacets :: "host \<Rightarrow> app \<Rightarrow> app \<times> error option" where
  "rebuildFacets H w =
     (case catalog w of
        Arr bs \<Rightarrow>
          if list_ex nullish bs then (w, Some TypeError)
          else
            (let fs = new_Set (filter truthy (map (\<lambda>b. get_prop b ''field'') bs));
                 ts = new_Set (filter truthy
                        (concat (map (\<lambda>b. flat_item (js_or (get_prop b ''tags'') (Arr []))) bs)));
                 prev = fieldFilter (ui w);
                 opts = map (to_str H) (plain_sort H fs)
             in (w\<lparr>facet_fields := fs, facet_tags := ts,
                    ui := (ui w)\<lparr>fieldOptions := opts,
                                 fieldFilter := (if prev \<in> set opts then prev else []),
                                 tagButtons := plain_sort H ts\<rparr>\<rparr>,
                 None))
      | _ \<Rightarrow> (w, Some TypeError))"

section \<open>Rendering\<close>

text \<open>The size a card adds to the total: finite sizes only.\<close>

fun finite_size :: "jsval \<Rightarrow> rat" where
  "finite_size (Num (Fin r)) = r"
| "finite_size v = 0"

text \<open>A card renders unless \<open>(book.tags || []).map\<close> is no function.\<close>

fun is_array :: "jsval \<Rightarrow> bool" where
  "is_array (Arr xs) = True"
| "is_array v = False"

definition card_ok :: "jsval \<Rightarrow> bool" where
  "card_ok b = is_array (js_or (get_prop b ''tags'') (Arr []))"

text \<open>
  \<open>renderBooks(list)\<close>: the grid is cleared; an empty list shows the empty state and
  zero totals. Otherwise the total is summed first (throwing on a nullish element), the
  counts are written and the cards are appended one by one, until one throws. The
  total is kept as the number handed to \<open>formatBytes\<close>.
\<close>

definition renderBooks :: "jsval list \<Rightarrow> app \<Rightarrow> app \<times> error option" where
  "renderBooks xs w =
     (if xs = [] then
        (w\<lparr>ui := (ui w)\<lparr>grid := [], emptyState := True, resultsCount := 0, totalSize := 0\<rparr>\<rparr>,
         None)
      else if list_ex nullish xs then
        (w\<lparr>ui := (ui w)\<lparr>grid := [], emptyState := False\<rparr>\<rparr>, Some TypeError)
      else
        (w\<lparr>ui := (ui w)\<lparr>grid := takeWhile card_ok xs, emptyState := False,
                      resultsCount := length xs,
                      totalSize := sum_list (map (\<lambda>b. finite_size (get_prop b ''sizeBytes'')) xs)\<rparr>\<rparr>,
         if list_all card_ok xs then None else Some TypeError))"

section \<open>Filter, sort, render\<close>

text \<open>\<open>xs.filter(p)\<close> with a predicate that may throw.\<close>

fun filterE :: "('a \<Rightarrow> error + bool) \<Rightarrow> 'a list \<Rightarrow> error + 'a list" where
  "filterE p [] = Inr []"
| "filterE p (x # xs) =
     (case p x of
        Inl e \<Rightarrow> Inl e
      | Inr keep \<Rightarrow>
          (case filterE p xs of
             Inl e \<Rightarrow> Inl e
           | Inr ys \<Rightarrow> Inr (if keep then x # ys else ys)))"

text \<open>\<open>a || b\<close> on conditions: \<open>b\<close> is evaluated only when \<open>a\<close> is false.\<close>

definition or_else :: "error + bool \<Rightarrow> error + bool \<Rightarrow> error + bool" where
  "or_else a b = (case a of Inr False \<Rightarrow> b | _ \<Rightarrow> a)"

text \<open>\<open>(v || '').toLowerCase().includes(q)\<close>: only a string has \<open>toLowerCase\<close>.\<close>

definition field_matches :: "host \<Rightarrow> string \<Rightarrow> jsval \<Rightarrow> error + bool" where
  "field_matches H q v =
     (case js_or v (Str []) of
        Str s \<Rightarrow> Inr (str_includes (toLowerCase H s) q)
      | _ \<Rightarrow> Inl TypeError)"

text \<open>\<open>ts.some(t => t.toLowerCase().includes(q))\<close>.\<close>

fun some_tag :: "host \<Rightarrow> string \<Rightarrow> jsval list \<Rightarrow> error + bool" where
  "some_tag H q [] = Inr False"
| "some_tag H q (t # ts) =
     (case t of
        Str s \<Rightarrow> if str_includes (toLowerCase H s) q then Inr True else some_tag H q ts
      | _ \<Rightarrow> Inl TypeError)"

definition tags_match :: "host \<Rightarrow> string \<Rightarrow> jsval \<Rightarrow> error + bool" where
  "tags_match H q v =
     (case js_or v (Arr []) of Arr ts \<Rightarrow> some_tag H q ts | _ \<Rightarrow> Inl TypeError)"

text \<open>The plain text filter, used when there is no index.\<close>

definition text_match :: "host \<Rightarrow> string \<Rightarrow> jsval \<Rightarrow> error + bool" where
  "text_match H q b =
     (if nullish b then Inl TypeError
      else or_else (field_matches H q (get_prop b ''title''))
             (or_else (field_matches H q (get_prop b ''author''))
                (or_else (field_matches H q (get_prop b ''field''))
                   (tags_match H q (get_prop b ''tags'')))))"

definition field_match :: "string \<Rightarrow> jsval \<Rightarrow> error + bool" where
  "field_match fieldVal b =
     (if nullish b then Inl TypeError else Inr (get_prop b ''field'' = Str fieldVal))"

text \<open>Every active tag is among the document's tags, each converted by \<open>String\<close>.\<close>

definition tag_match :: "host \<Rightarrow> jsval list \<Rightarrow> jsval \<Rightarrow> error + bool" where
  "tag_match H active b =
     (if nullish b then Inl TypeError
      else
        (case js_or (get_prop b ''tags'') (Arr []) of
           Arr ts \<Rightarrow> Inr (list_all (\<lambda>t. t \<in> set (map (\<lambda>x. Str (to_str H x)) ts)) active)
         | _ \<Rightarrow> Inl TypeError))"

subsection \<open>The comparator\<close>

text \<open>Subtraction of numbers.\<close>

fun num_sub :: "jsnum \<Rightarrow> jsnum \<Rightarrow> jsnum" where
  "num_sub (Fin a) (Fin b) = Fin (a - b)"
| "num_sub NaN y = NaN"
| "num_sub x NaN = NaN"
| "num_sub PosInf PosInf = NaN"
| "num_sub NegInf NegInf = NaN"
| "num_sub PosInf y = PosInf"
| "num_sub NegInf y = NegInf"
| "num_sub (Fin a) PosInf = NegInf"
| "num_sub (Fin a) NegInf = PosInf"

text \<open>\<open>a.localeCompare(b)\<close>: the receiver must be a string, the argument is converted.\<close>

definition locale_cmp :: "host \<Rightarrow> jsval \<Rightarrow> jsval \<Rightarrow> error + jsnum" where
  "locale_cmp H a b =
     (case a of
        Str s \<Rightarrow> Inr (Fin (of_int (localeCompare H s (to_str H b))))
      | _ \<Rightarrow> Inl TypeError)"

definition negated :: "error + jsnum \<Rightarrow> error + jsnum" where
  "negated r = (case r of Inr n \<Rightarrow> Inr (num_sub (Fin 0) n) | Inl e \<Rightarrow> Inl e)"

text \<open>The comparator handed to \<open>list.sort\<close>, by the selected sort key.\<close>

definition compare_books :: "host \<Rightarrow> string \<Rightarrow> jsval \<Rightarrow> jsval \<Rightarrow> error + jsnum" where
  "compare_books H key a b =
     (if nullish a \<or> nullish b then Inl TypeError
      else if key = ''title-desc'' then
        negated (locale_cmp H (get_prop a ''title'') (get_prop b ''title''))
      else if key = ''author'' then
        locale_cmp H (js_or (get_prop a ''author'') (Str [])) (js_or (get_prop b ''author'') (Str []))
      else if key = ''author-desc'' then
        negated (locale_cmp H (js_or (get_prop a ''author'') (Str []))
                   (js_or (get_prop b ''author'') (Str [])))
      else if key = ''field'' then
        locale_cmp H (js_or (get_prop a ''field'') (Str [])) (js_or (get_prop b ''field'') (Str []))
      else if key = ''size'' then
        Inr (num_sub (to_num H (js_or (get_prop a ''sizeBytes'') (Num (Fin 0))))
               (to_num H (js_or (get_prop b ''sizeBytes'') (Num (Fin 0)))))
      else if key = ''date'' then
        Inr (num_sub (to_num H (js_or (get_prop a ''addedAt'') (Num (Fin 0))))
               (to_num H (js_or (get_prop b ''addedAt'') (Num (Fin 0)))))
      else locale_cmp H (get_prop a ''title'') (get_prop b ''title''))"

text \<open>
  \<open>xs.sort(cmp)\<close>: stable; a comparator result that is positive puts the second argument
  first, any other result (NaN counts as 0) keeps the first argument first. Which pairs
  the engine compares is its own choice; the model inserts the elements from the right,
  one after the other, and stops at the first comparison that throws. \<open>undefined\<close>
  elements go last without being compared.
\<close>

fun is_positive :: "jsnum \<Rightarrow> bool" where
  "is_positive (Fin r) = (0 < r)"
| "is_positive PosInf = True"
| "is_positive n = False"

fun insert_by :: "('a \<Rightarrow> 'a \<Rightarrow> error + jsnum) \<Rightarrow> 'a \<Rightarrow> 'a list \<Rightarrow> error + 'a list" where
  "insert_by cmp x [] = Inr [x]"
| "insert_by cmp x (y # ys) =
     (case cmp x y of
        Inl e \<Rightarrow> Inl e
      | Inr n \<Rightarrow>
          if is_positive n then
            (case insert_by cmp x ys of Inl e \<Rightarrow> Inl e | Inr zs \<Rightarrow> Inr (y # zs))
          else Inr (x # y # ys))"

fun sort_by :: "('a \<Rightarrow> 'a \<Rightarrow> error + jsnum) \<Rightarrow> 'a list \<Rightarrow> error + 'a list" where
  "sort_by cmp [] = Inr []"
| "sort_by cmp (x # xs) =
     (case sort_by cmp xs of Inl e \<Rightarrow> Inl e | Inr ys \<Rightarrow> insert_by cmp x ys)"

definition array_sort :: "(jsval \<Rightarrow> jsval \<Rightarrow> error + jsnum) \<Rightarrow> jsval list \<Rightarrow> error + jsval list" where
  "array_sort cmp xs =
     (case sort_by cmp (filter (\<lambda>x. x \<noteq> Undefined) xs) of
        Inl e \<Rightarrow> Inl e
      | Inr ys \<Rightarrow> Inr (ys @ filter (\<lambda>x. x = Undefined) xs))"

subsection \<open>The pipeline on the store\<close>

text \<open>\<open>[...v]\<close>: the elements of an array or the characters of a string; nothing else
  that the catalog can hold is iterable.\<close>

definition spread_elems :: "jsval \<Rightarrow> error + jsval list" where
  "spread_elems v =
     (case v of
        Arr xs \<Rightarrow> Inr xs
      | Str s \<Rightarrow> Inr (map (\<lambda>c. Str [c]) s)
      | _ \<Rightarrow> Inl TypeError)"

text \<open>\<open>list = list.filter(p)\<close>: a new array; \<open>list\<close> is the address of the array.\<close>

definition array_filter :: "(jsval \<Rightarrow> error + bool) \<Rightarrow> nat \<Rightarrow> app \<Rightarrow> app \<times> (error + nat)" where
  "array_filter p l w =
     (case store w l of
        Arr xs \<Rightarrow>
          (case filterE p xs of
             Inl e \<Rightarrow> (w, Inl e)
           | Inr ys \<Rightarrow> (case alloc (Arr ys) w of (w', l') \<Rightarrow> (w', Inr l')))
      | _ \<Rightarrow> (w, Inl TypeError))"

text \<open>
  The text filter: with an index, the list becomes the array of the items the index
  returns for the query; without one, the plain filter runs on the lower-cased query.
\<close>

definition search_step :: "host \<Rightarrow> string \<Rightarrow> nat \<Rightarrow> app \<Rightarrow> app \<times> (error + nat)" where
  "search_step H query l w =
     (if query = [] then (w, Inr l)
      else
        (case fuse w of
           Some (docs, threshold) \<Rightarrow>
             (case Fuse_search H (store w docs) threshold query of
                Inl e \<Rightarrow> (w, Inl e)
              | Inr items \<Rightarrow> (case alloc (Arr items) w of (w', l') \<Rightarrow> (w', Inr l')))
         | None \<Rightarrow> array_filter (text_match H (toLowerCase H query)) l w))"

definition field_step :: "string \<Rightarrow> nat \<Rightarrow> app \<Rightarrow> app \<times> (error + nat)" where
  "field_step fieldVal l w =
     (if fieldVal = [] then (w, Inr l) else array_filter (field_match fieldVal) l w)"

definition tag_step :: "host \<Rightarrow> jsval list \<Rightarrow> nat \<Rightarrow> app \<Rightarrow> app \<times> (error + nat)" where
  "tag_step H active l w =
     (if active = [] then (w, Inr l) else array_filter (tag_match H active) l w)"

text \<open>\<open>list.sort(cmp)\<close> sorts the array at \<open>list\<close> in place.\<close>

definition sort_step :: "host \<Rightarrow> string \<Rightarrow> nat \<Rightarrow> app \<Rightarrow> app \<times> error option" where
  "sort_step H key l w =
     (case store w l of
        Arr xs \<Rightarrow>
          (case array_sort (compare_books H key) xs of
             Inl e \<Rightarrow> (w, Some e)
           | Inr ys \<Rightarrow> (w\<lparr>store := (store w)(l := Arr ys)\<rparr>, None))
      | _ \<Rightarrow> (w, Some TypeError))"

fun elements :: "jsval \<Rightarrow> jsval list" where
  "elements (Arr xs) = xs"
| "elements v = []"

text \<open>
  \<open>applyFiltersAndRender\<close>: \<open>list\<close> starts as a fresh copy of the catalog array, is
  replaced by each filter that applies, is sorted in place, and becomes
  \<open>state.filteredBooks\<close>, which is rendered.
\<close>

definition applyFiltersAndRender :: "host \<Rightarrow> app \<Rightarrow> app \<times> error option" where
  "applyFiltersAndRender H w =
     (case spread_elems (catalog w) of
        Inl e \<Rightarrow> (w, Some e)
      | Inr bs \<Rightarrow>
          (case alloc (Arr bs) w of
             (w0, l0) \<Rightarrow>
               (case search_step H (trim (searchInput (ui w))) l0 w0 of
                  (w1, Inl e) \<Rightarrow> (w1, Some e)
                | (w1, Inr l1) \<Rightarrow>
                    (case field_step (fieldFilter (ui w)) l1 w1 of
                       (w2, Inl e) \<Rightarrow> (w2, Some e)
                     | (w2, Inr l2) \<Rightarrow>
                         (case tag_step H (activeTags w) l2 w2 of
                            (w3, Inl e) \<Rightarrow> (w3, Some e)
                          | (w3, Inr l3) \<Rightarrow>
                              (case sort_step H (sortSelect (ui w)) l3 w3 of
                                 (w4, Some e) \<Rightarrow> (w4, Some e)
                               | (w4, None) \<Rightarrow>
                                   renderBooks (elements (store w4 l3))
                                     (w4\<lparr>filteredBooks := l3\<rparr>)))))))"

definition showLoading :: "bool \<Rightarrow> app \<Rightarrow> app" where
  "showLoading show w = w\<lparr>ui := (ui w)\<lparr>loadingIndicator := show\<rparr>\<rparr>"

definition alert :: "string \<Rightarrow> app \<Rightarrow> app" where
  "alert msg w = w\<lparr>alerts := alerts w @ [msg]\<rparr>"

section \<open>Loading a manifest\<close>

text \<open>\<open>filenameFromPath(p)\<close> is \<open>p.split('/').pop()\<close>: only a string has \<open>split\<close>.\<close>

definition filenameFromPath :: "jsval \<Rightarrow> error + jsval" where
  "filenameFromPath p =
     (case p of
        Str s \<Rightarrow> Inr (Str (last (split_on (CHR ''/'') s)))
      | _ \<Rightarrow> Inl TypeError)"

text \<open>
  The record that \<open>scanBooks\<close> and \<open>importBooksJson\<close> build from the i-th entry; the two
  object literals differ in the default provenance only (\<open>source\<close>). Reading \<open>item.id\<close>
  throws on a nullish entry.
\<close>

definition normalize :: "host \<Rightarrow> string \<Rightarrow> nat \<Rightarrow> jsval \<Rightarrow> error + jsval" where
  "normalize H source i item =
     (if nullish item then Inl TypeError
      else
        (case filenameFromPath (get_prop item ''path'') of
           Inl e \<Rightarrow> Inl e
         | Inr filename \<Rightarrow>
             Inr (Obj
               [(''id'', js_or (get_prop item ''id'') (Str (uniqueId H i))),
                (''title'', js_or (get_prop item ''title'') (Str [])),
                (''author'', js_or (get_prop item ''author'') (Str [])),
                (''field'', js_or (get_prop item ''field'') (Str [])),
                (''tags'', js_or (get_prop item ''tags'') (Arr [])),
                (''description'', js_or (get_prop item ''description'') (Str [])),
                (''path'', get_prop item ''path''),
                (''filename'', filename),
                (''sizeBytes'',
                   if is_number (get_prop item ''sizeBytes'') then get_prop item ''sizeBytes''
                   else Num NaN),
                (''addedAt'', js_or (get_prop item ''addedAt'') (Num (Fin (Date_now H i)))),
                (''metadataSource'', js_or (get_prop item ''metadataSource'') (Str source))])))"

text \<open>\<open>xs.map(f)\<close> with a callback that may throw; \<open>i\<close> is the index of the head.\<close>

fun map_indexed :: "(nat \<Rightarrow> 'a \<Rightarrow> error + 'b) \<Rightarrow> nat \<Rightarrow> 'a list \<Rightarrow> error + 'b list" where
  "map_indexed f i [] = Inr []"
| "map_indexed f i (x # xs) =
     (case f i x of
        Inl e \<Rightarrow> Inl e
      | Inr y \<Rightarrow>
          (case map_indexed f (Suc i) xs of
             Inl e \<Rightarrow> Inl e
           | Inr ys \<Rightarrow> Inr (y # ys)))"

text \<open>What \<open>fetch('books.json')\<close> came to: a rejection, or a response with its status
  and body.\<close>

datatype fetched = NetworkError | Response bool jstext

definition tryLoadManifest :: "fetched \<Rightarrow> jsval" where
  "tryLoadManifest r =
     (case r of
        NetworkError \<Rightarrow> Null
      | Response ok body \<Rightarrow>
          if \<not> ok then Null
          else
            (case JSON_parse body of
               Inl e \<Rightarrow> Null
             | Inr data \<Rightarrow> if is_array data then data else Null))"

definition NO_MANIFEST :: string where
  "NO_MANIFEST = ''No books.json manifest found. Please create or import one.''"

text \<open>What follows every replacement of the catalog: persist, index, facets, render.\<close>

definition refresh :: "host \<Rightarrow> app \<Rightarrow> app \<times> error option" where
  "refresh H w =
     and_then (and_then (initFuse H (saveBooks w)) (rebuildFacets H)) (applyFiltersAndRender H)"

definition scanBooks :: "host \<Rightarrow> fetched \<Rightarrow> app \<Rightarrow> app \<times> error option" where
  "scanBooks H r w =
     (let w1 = showLoading True w; manifest = tryLoadManifest r in
      if \<not> truthy manifest \<or> strict_eq (get_prop manifest ''length'') (Num (Fin 0)) then
        (showLoading False (alert NO_MANIFEST w1), None)
      else
        (case manifest of
           Arr items \<Rightarrow>
             (case map_indexed (normalize H ''manifest'') 0 items of
                Inl e \<Rightarrow> (w1, Some e)
              | Inr recs \<Rightarrow>
                  and_then (refresh H (assign_books (Arr recs) w1))
                    (\<lambda>w'. (showLoading False w', None)))
         | _ \<Rightarrow> (w1, Some TypeError)))"

section \<open>Export and import\<close>

text \<open>The manifest entry written for a document; \<open>b.id\<close> throws on a nullish one.\<close>

definition export_record :: "jsval \<Rightarrow> error + jsval" where
  "export_record b =
     (if nullish b then Inl TypeError
      else
        Inr (Obj
          [(''id'', get_prop b ''id''),
           (''title'', get_prop b ''title''),
           (''author'', get_prop b ''author''),
           (''field'', get_prop b ''field''),
           (''tags'', get_prop b ''tags''),
           (''description'', get_prop b ''description''),
           (''path'', get_prop b ''path''),
           (''sizeBytes'',
              if isFinite (get_prop b ''sizeBytes'') then get_prop b ''sizeBytes'' else Undefined),
           (''addedAt'', get_prop b ''addedAt''),
           (''metadataSource'', get_prop b ''metadataSource'')]))"

text \<open>The text of the file \<open>books.json\<close> that \<open>exportBooksJson\<close> offers.\<close>

definition export_text :: "jsval \<Rightarrow> error + jstext" where
  "export_text cat =
     (case cat of
        Arr bs \<Rightarrow>
          (case map_indexed (\<lambda>i. export_record) 0 bs of
             Inl e \<Rightarrow> Inl e
           | Inr manifest \<Rightarrow> Inr (JSON_stringify (Arr manifest)))
      | _ \<Rightarrow> Inl TypeError)"

definition exportBooksJson :: "app \<Rightarrow> app \<times> error option" where
  "exportBooksJson w =
     (case export_text (catalog w) of
        Inl e \<Rightarrow> (w, Some e)
      | Inr t \<Rightarrow> (w\<lparr>downloads := downloads w @ [t]\<rparr>, None))"

definition err_message :: "host \<Rightarrow> error \<Rightarrow> string" where
  "err_message H e = (case e of InvalidJSON \<Rightarrow> ''Invalid JSON'' | _ \<Rightarrow> engine_message H e)"

definition IMPORT_FAILED :: string where
  "IMPORT_FAILED = ''Failed to import books.json: ''"

definition IMPORT_OK :: string where
  "IMPORT_OK = ''Imported books.json successfully. Remember to commit this file to your repository root for auto-scan.''"

text \<open>
  The body of the \<open>try\<close> block of \<open>importBooksJson\<close>, run when the file has been read:
  \<open>file\<close> is its text.
\<close>

definition import_try :: "host \<Rightarrow> jstext \<Rightarrow> app \<Rightarrow> app \<times> error option" where
  "import_try H file w =
     (case JSON_parse file of
        Inl e \<Rightarrow> (w, Some e)
      | Inr arr \<Rightarrow>
          (case arr of
             Arr items \<Rightarrow>
               (case map_indexed (normalize H ''import'') 0 items of
                  Inl e \<Rightarrow> (w, Some e)
                | Inr recs \<Rightarrow>
                    and_then (refresh H (assign_books (Arr recs) w))
                      (\<lambda>w'. (alert IMPORT_OK w', None)))
           | _ \<Rightarrow> (w, Some InvalidJSON)))"

text \<open>The \<open>catch\<close> reports the error; the handler itself never throws.\<close>

definition importBooksJson :: "host \<Rightarrow> jstext \<Rightarrow> app \<Rightarrow> app" where
  "importBooksJson H file w =
     (case import_try H file w of
        (w', None) \<Rightarrow> w'
      | (w', Some e) \<Rightarrow> alert (IMPORT_FAILED @ err_message H e) w')"

section \<open>Inline viewer\<close>

text \<open>\<open>a <= b\<close> on numbers.\<close>

fun num_le :: "jsnum \<Rightarrow> jsnum \<Rightarrow> bool" where
  "num_le NaN y = False"
| "num_le x NaN = False"
| "num_le (Fin a) (Fin b) = (a \<le> b)"
| "num_le NegInf y = True"
| "num_le x PosInf = True"
| "num_le x y = False"

text \<open>\<open>Number.isFinite(book.sizeBytes) ? book.sizeBytes / (1024 * 1024) : NaN\<close>.\<close>

fun sizeMB :: "jsval \<Rightarrow> jsnum" where
  "sizeMB (Num (Fin r)) = Fin (r / (1024 * 1024))"
| "sizeMB v = NaN"

text \<open>
  \<open>allowInline\<close>: the size in megabytes is not finite, or is at most the configured
  threshold (converted to a number when the stored configuration holds something else).
\<close>

definition allowInline :: "host \<Rightarrow> jsval \<Rightarrow> jsval \<Rightarrow> bool" where
  "allowInline H sizeBytes maxViewerSizeMB =
     (\<not> isFinite (Num (sizeMB sizeBytes)) \<or> num_le (sizeMB sizeBytes) (to_num H maxViewerSizeMB))"

text \<open>
  \<open>openPdf(book)\<close>, up to the call of \<open>renderPdfPage\<close> (the PDF.js session is outside
  the model): a document that is not allowed inline is opened in a new browsing context
  and nothing else changes; otherwise the viewer state is set and the panel shown.
\<close>

definition openPdf :: "host \<Rightarrow> jsval \<Rightarrow> app \<Rightarrow> app \<times> error option" where
  "openPdf H book w =
     (if nullish book then (w, Some TypeError)
      else if \<not> allowInline H (get_prop book ''sizeBytes'')
                  (get_prop (Obj (config w)) ''maxViewerSizeMB'')
      then (w\<lparr>opened := opened w @ [encodeURI H (to_str H (get_prop book ''path''))]\<rparr>, None)
      else
        (w\<lparr>pdf := (pdf w)\<lparr>pdf_url := Str (encodeURI H (to_str H (get_prop book ''path''))),
                           pageNum := 1, pdf_scale := 1,
                           pdf_title := get_prop book ''title''\<rparr>,
            ui := (ui w)\<lparr>modalTitle := get_prop book ''title'', pdfModal := True\<rparr>\<rparr>,
         None))"

section \<open>Metadata editor\<close>

text \<open>\<open>xs.join(', ')\<close>: nullish elements count as empty strings.\<close>

fun join_with :: "host \<Rightarrow> string \<Rightarrow> jsval list \<Rightarrow> string" where
  "join_with H sep [] = []"
| "join_with H sep [x] = (if nullish x then [] else to_str H x)"
| "join_with H sep (x # y # ys) =
     (if nullish x then [] else to_str H x) @ sep @ join_with H sep (y # ys)"

text \<open>
  \<open>openEditModal(book)\<close> remembers the id and fills the form; \<open>join\<close> exists on an
  array only, and the fields set before it throws stay set.
\<close>

definition openEditModal :: "host \<Rightarrow> jsval \<Rightarrow> app \<Rightarrow> app \<times> error option" where
  "openEditModal H book w =
     (if nullish book then (w, Some TypeError)
      else
        (let w1 = w\<lparr>editingId := get_prop book ''id'',
                     ui := (ui w)\<lparr>editTitle := to_str H (js_or (get_prop book ''title'') (Str [])),
                                  editAuthor := to_str H (js_or (get_prop book ''author'') (Str [])),
                                  editField := to_str H (js_or (get_prop book ''field'') (Str []))\<rparr>\<rparr>
         in case js_or (get_prop book ''tags'') (Arr []) of
              Arr ts \<Rightarrow>
                (w1\<lparr>ui := (ui w1)\<lparr>editTags := join_with H '', '' ts,
                                    editDescription :=
                                      to_str H (js_or (get_prop book ''description'') (Str [])),
                                    editModal := True\<rparr>\<rparr>,
                 None)
            | _ \<Rightarrow> (w1, Some TypeError)))"

definition closeEditModal :: "app \<Rightarrow> app" where
  "closeEditModal w = w\<lparr>editingId := Null, ui := (ui w)\<lparr>editModal := False\<rparr>\<rparr>"

text \<open>\<open>xs.findIndex(p)\<close> with a predicate that may throw; \<open>None\<close> stands for -1.\<close>

fun findIndex :: "('a \<Rightarrow> error + bool) \<Rightarrow> 'a list \<Rightarrow> error + nat option" where
  "findIndex p [] = Inr None"
| "findIndex p (x # xs) =
     (case p x of
        Inl e \<Rightarrow> Inl e
      | Inr True \<Rightarrow> Inr (Some 0)
      | Inr False \<Rightarrow>
          (case findIndex p xs of
             Inl e \<Rightarrow> Inl e
           | Inr None \<Rightarrow> Inr None
           | Inr (Some i) \<Rightarrow> Inr (Some (Suc i))))"

definition has_id :: "jsval \<Rightarrow> jsval \<Rightarrow> error + bool" where
  "has_id eid b = (if nullish b then Inl TypeError else Inr (strict_eq (get_prop b ''id'') eid))"

text \<open>The decimal name of an index.\<close>

fun decimal :: "nat \<Rightarrow> string" where
  "decimal n =
     (if n < 10 then [char_of (48 + n)] else decimal (n div 10) @ [char_of (48 + n mod 10)])"

declare decimal.simps [simp del]

text \<open>The own enumerable properties that \<open>{...v}\<close> copies.\<close>

definition own_props :: "jsval \<Rightarrow> (string \<times> jsval) list" where
  "own_props v =
     (case v of
        Obj kvs \<Rightarrow> kvs
      | Arr xs \<Rightarrow> map (\<lambda>i. (decimal i, xs ! i)) [0..<length xs]
      | Str s \<Rightarrow> map (\<lambda>i. (decimal i, Str [s ! i])) [0..<length s]
      | _ \<Rightarrow> [])"

text \<open>\<open>(v || 'manifest') + '+manual'\<close>.\<close>

definition manual_source :: "host \<Rightarrow> jsval \<Rightarrow> jsval" where
  "manual_source H v = Str (to_str H (js_or v (Str ''manifest'')) @ ''+manual'')"

text \<open>The tags of the form: split on commas, trimmed, empty pieces dropped.\<close>

definition form_tags :: "string \<Rightarrow> jsval" where
  "form_tags s = Arr (map Str (filter (\<lambda>t. t \<noteq> []) (map trim (split_on (CHR '','') s))))"

text \<open>The object that replaces document \<open>old\<close> on save.\<close>

definition updated_record :: "host \<Rightarrow> page \<Rightarrow> jsval \<Rightarrow> jsval" where
  "updated_record H form old =
     Obj (set_props
       [(''title'', Str (trim (editTitle form))),
        (''author'', Str (trim (editAuthor form))),
        (''field'', Str (trim (editField form))),
        (''tags'', form_tags (editTags form)),
        (''description'', Str (trim (editDescription form))),
        (''metadataSource'', manual_source H (get_prop old ''metadataSource''))]
       (own_props old))"

text \<open>
  The submit handler of the edit form: the catalog array is updated in place at the
  first document with the remembered id; without one nothing happens.
\<close>

definition editSubmit :: "host \<Rightarrow> app \<Rightarrow> app \<times> error option" where
  "editSubmit H w =
     (case catalog w of
        Arr bs \<Rightarrow>
          (case findIndex (has_id (editingId w)) bs of
             Inl e \<Rightarrow> (w, Some e)
           | Inr None \<Rightarrow> (w, None)
           | Inr (Some idx) \<Rightarrow>
               and_then
                 (refresh H
                    (w\<lparr>store := (store w)
                          (books w := Arr (bs[idx := updated_record H (ui w) (bs ! idx)]))\<rparr>))
                 (\<lambda>w'. (closeEditModal w', None)))
      | _ \<Rightarrow> (w, Some TypeError))"

section \<open>Configuration panel\<close>

fun num_min :: "jsnum \<Rightarrow> jsnum \<Rightarrow> jsnum" where
  "num_min NaN y = NaN"
| "num_min x NaN = NaN"
| "num_min x y = (if num_le x y then x else y)"

fun num_max :: "jsnum \<Rightarrow> jsnum \<Rightarrow> jsnum" where
  "num_max NaN y = NaN"
| "num_max x NaN = NaN"
| "num_max x y = (if num_le x y then y else x)"

definition closeConfigModal :: "app \<Rightarrow> app" where
  "closeConfigModal w = w\<lparr>ui := (ui w)\<lparr>configModal := False\<rparr>\<rparr>"

text \<open>The four values that the save handler of the panel assigns to \<open>state.config\<close>.\<close>

definition saved_rootFolder :: "string \<Rightarrow> jsval" where
  "saved_rootFolder input = js_or (Str (trim input)) (Str ''Books'')"

definition saved_searchThreshold :: "string \<Rightarrow> jsval" where
  "saved_searchThreshold input = js_or (parseFloat input) (Num (Fin (2 / 5)))"

definition saved_maxViewerSizeMB :: "host \<Rightarrow> string \<Rightarrow> jsval" where
  "saved_maxViewerSizeMB H input =
     Num (num_max (Fin 1) (num_min (Fin 50) (to_num H (js_or (parseInt10 input) (Num (Fin 10))))))"

definition saveConfigClick :: "host \<Rightarrow> app \<Rightarrow> app \<times> error option" where
  "saveConfigClick H w =
     (let c1 = set_prop ''rootFolder'' (saved_rootFolder (rootFolderInput (ui w))) (config w);
          c2 = set_prop ''fuzzySearch'' (Bool (fuzzySearchBox (ui w))) c1;
          c3 = set_prop ''searchThreshold''
                 (saved_searchThreshold (searchThresholdInput (ui w))) c2;
          c4 = set_prop ''maxViewerSizeMB''
                 (saved_maxViewerSizeMB H (maxViewerSizeInput (ui w))) c3
      in and_then (initFuse H (saveConfig (w\<lparr>config := c4\<rparr>)))
           (\<lambda>w'. (closeConfigModal w', None)))"

section \<open>Boot\<close>

definition loadConfig :: "app \<Rightarrow> app" where
  "loadConfig w =
     (case localStorage w LS_CONFIG of
        None \<Rightarrow> w
      | Some EmptyText \<Rightarrow> w
      | Some t \<Rightarrow>
          (case JSON_parse t of
             Inr v \<Rightarrow> w\<lparr>config := set_props (own_props v) DEFAULT_CONFIG\<rparr>
           | Inl e \<Rightarrow> w\<lparr>config := DEFAULT_CONFIG\<rparr>))"

text \<open>
  \<open>boot\<close>, up to \<open>bindEvents\<close>, which attaches the handlers modelled above and writes
  nothing.
\<close>

definition boot :: "host \<Rightarrow> app \<Rightarrow> app \<times> error option" where
  "boot H w =
     and_then (and_then (initFuse H (loadBooks (loadConfig w))) (rebuildFacets H))
       (applyFiltersAndRender H)"

text \<open>The state of a freshly loaded page, for given storage contents and controls.\<close>

definition initial_app :: "(string \<Rightarrow> jstext option) \<Rightarrow> page \<Rightarrow> app" where
  "initial_app ls p =
     \<lparr>config = DEFAULT_CONFIG,
      store = (\<lambda>a. Arr []),
      next_ref = 2,
      books = 0,
      filteredBooks = 1,
      activeTags = [],
      facet_fields = [],
      facet_tags = [],
      fuse = None,
      pdf = \<lparr>pdf_url = Null, pdfDoc = False, pageNum = 1, pageCount = 1, pdf_scale = 1,
              minScale = 1 / 2, maxScale = 5 / 2, step = 1 / 10, pdf_title = Str []\<rparr>,
      editingId = Null,
      localStorage = ls,
      ui = p,
      alerts = [],
      opened = [],
      downloads = []\<rparr>"

section \<open>A sample host and sample data\<close>

text \<open>
  One host among those the theorems range over, and a few states and files, for the
  concrete evaluations below: byte-wise comparison and ASCII case mapping, an engine
  that converts nothing, a search that returns the whole collection.
\<close>

fun ascii_compare :: "string \<Rightarrow> string \<Rightarrow> int" where
  "ascii_compare [] [] = 0"
| "ascii_compare [] (y # ys) = - 1"
| "ascii_compare (x # xs) [] = 1"
| "ascii_compare (x # xs) (y # ys) =
     (if x = y then ascii_compare xs ys
      else if (of_char x :: nat) < of_char y then - 1 else 1)"

definition ascii_lower :: "string \<Rightarrow> string" where
  "ascii_lower s =
     map (\<lambda>c. if 65 \<le> (of_char c :: nat) \<and> (of_char c :: nat) \<le> 90
               then char_of (of_char c + 32 :: nat) else c) s"

definition sample_host :: host where
  "sample_host =
     \<lparr>localeCompare = ascii_compare,
      toLowerCase = ascii_lower,
      toString = (\<lambda>v. ''[object Object]''),
      toNumber = (\<lambda>v. NaN),
      encodeURI = (\<lambda>s. s),
      plain_sort = (\<lambda>xs. xs),
      Fuse_new = (\<lambda>docs threshold. None),
      Fuse_search = (\<lambda>docs threshold query. Inr (elements docs)),
      uniqueId = (\<lambda>i. ''uid'' @ replicate i (CHR ''x'')),
      Date_now = (\<lambda>i. 1700000000000),
      engine_message = (\<lambda>e. ''error'')\<rparr>"

definition blank_page :: page where
  "blank_page =
     \<lparr>searchInput = [], fieldFilter = [], sortSelect = ''title'', fieldOptions = [],
      tagButtons = [], loadingIndicator = False, grid = [], emptyState = True,
      resultsCount = 0, totalSize = 0, editTitle = [], editAuthor = [], editField = [],
      editTags = [], editDescription = [], editModal = False, rootFolderInput = ''Books'',
      fuzzySearchBox = True, searchThresholdInput = ''0.4'', maxViewerSizeInput = ''10'',
      configModal = False, modalTitle = Str [], pdfModal = False\<rparr>"

text \<open>A storage without items, and one whose catalog item holds a given text.\<close>

definition empty_storage :: "string \<Rightarrow> jstext option" where
  "empty_storage = (\<lambda>k. None)"

definition catalog_storage :: "jstext \<Rightarrow> string \<Rightarrow> jstext option" where
  "catalog_storage t = empty_storage(LS_BOOKS := Some t)"

text \<open>A catalog holding one document, C.\<close>

definition doc_C :: jsval where
  "doc_C =
     Obj [(''id'', Str ''c''), (''title'', Str ''C''), (''author'', Str []),
          (''field'', Str []), (''tags'', Arr []), (''description'', Str []),
          (''path'', Str ''Books/c.pdf''), (''filename'', Str ''c.pdf''),
          (''sizeBytes'', Num NaN), (''addedAt'', Num (Fin 1)),
          (''metadataSource'', Str ''manifest'')]"

definition app_C :: app where
  "app_C = (initial_app empty_storage blank_page)\<lparr>store := (\<lambda>a. Arr [])(0 := Arr [doc_C])\<rparr>"

text \<open>A manifest with two entries, A and B, and the records they normalise to.\<close>

definition items_AB :: "jsval list" where
  "items_AB =
     [Obj [(''title'', Str ''A''), (''path'', Str ''Books/Analysis/a.pdf''),
           (''sizeBytes'', Num (Fin 500))],
      Obj [(''id'', Str ''b''), (''path'', Str ''b.pdf''), (''tags'', Arr [Str ''algebra''])]]"

definition manifest_AB :: json where
  "manifest_AB =
     JArray
       [JObject [(''title'', JString ''A''), (''path'', JString ''Books/Analysis/a.pdf''),
                 (''sizeBytes'', JNumber 500)],
        JObject [(''id'', JString ''b''), (''path'', JString ''b.pdf''),
                 (''tags'', JArray [JString ''algebra''])]]"

definition records_AB :: "string \<Rightarrow> jsval list" where
  "records_AB source =
     [Obj [(''id'', Str ''uid''), (''title'', Str ''A''), (''author'', Str []),
           (''field'', Str []), (''tags'', Arr []), (''description'', Str []),
           (''path'', Str ''Books/Analysis/a.pdf''), (''filename'', Str ''a.pdf''),
           (''sizeBytes'', Num (Fin 500)), (''addedAt'', Num (Fin 1700000000000)),
           (''metadataSource'', Str source)],
      Obj [(''id'', Str ''b''), (''title'', Str []), (''author'', Str []),
           (''field'', Str []), (''tags'', Arr [Str ''algebra'']), (''description'', Str []),
           (''path'', Str ''b.pdf''), (''filename'', Str ''b.pdf''),
           (''sizeBytes'', Num NaN), (''addedAt'', Num (Fin 1700000000000)),
           (''metadataSource'', Str source)]]"

text \<open>A state whose catalog holds the records of A and B, in this order.\<close>

definition app_AB :: app where
  "app_AB =
     (initial_app empty_storage blank_page)
       \<lparr>store := (\<lambda>a. Arr [])(0 := Arr (records_AB ''manifest''))\<rparr>"

text \<open>What the user typed into a field of the configuration panel.\<close>

definition with_max_input :: "string \<Rightarrow> app \<Rightarrow> app" where
  "with_max_input s w = w\<lparr>ui := (ui w)\<lparr>maxViewerSizeInput := s\<rparr>\<rparr>"

definition with_threshold_input :: "string \<Rightarrow> app \<Rightarrow> app" where
  "with_threshold_input s w = w\<lparr>ui := (ui w)\<lparr>searchThresholdInput := s\<rparr>\<rparr>"

text \<open>A document of a known size, in bytes.\<close>

definition doc_sized :: "rat \<Rightarrow> jsval" where
  "doc_sized n =
     Obj [(''id'', Str ''d''), (''title'', Str ''D''), (''path'', Str ''d.pdf''),
          (''sizeBytes'', Num (Fin n))]"

section \<open>Observations\<close>

text \<open>
  What it is, from state \<open>w\<close> to state \<open>w'\<close>, for a document to have been opened inline
  (the viewer is set to the document and shown, no browsing context is opened) and to
  have been opened externally (one browsing context is opened on the document, viewer
  and page are as they were).
\<close>

definition opens_inline :: "host \<Rightarrow> jsval \<Rightarrow> app \<Rightarrow> app \<Rightarrow> bool" where
  "opens_inline H book w w' \<longleftrightarrow>
     opened w' = opened w \<and> pdfModal (ui w') \<and>
     pdf_url (pdf w') = Str (encodeURI H (to_str H (get_prop book ''path''))) \<and>
     pageNum (pdf w') = 1 \<and> pdf_scale (pdf w') = 1 \<and>
     pdf_title (pdf w') = get_prop book ''title''"

definition opens_external :: "host \<Rightarrow> jsval \<Rightarrow> app \<Rightarrow> app \<Rightarrow> bool" where
  "opens_external H book w w' \<longleftrightarrow>
     opened w' = opened w @ [encodeURI H (to_str H (get_prop book ''path''))] \<and>
     pdf w' = pdf w \<and> ui w' = ui w"

text \<open>The state in which the editor remembers the id \<open>eid\<close>.\<close>

definition with_editing :: "jsval \<Rightarrow> app \<Rightarrow> app" where
  "with_editing eid w = w\<lparr>editingId := eid\<rparr>"

text \<open>
  A value that \<open>JSON.parse(JSON.stringify(v))\<close> gives back as it is. Strings, booleans,
  \<open>null\<close>, finite numbers and arrays of such values do; \<open>undefined\<close> and the non-finite
  numbers do not.
\<close>

definition survives_json :: "jsval \<Rightarrow> bool" where
  "survives_json v \<longleftrightarrow> from_json (to_json v) = v"

definition clean_props :: "(string \<times> jsval) list \<Rightarrow> bool" where
  "clean_props acc \<longleftrightarrow>
     distinct (map fst acc) \<and> (\<forall>kv \<in> set acc. snd kv \<noteq> Undefined \<and> survives_json (snd kv))"

text \<open>
  A document as the application keeps it in the catalog: an id, a provenance, a time of
  addition and tags that are present (truthy), descriptive fields that are present or
  the empty string, all of them values of the JSON kind; a path that is a string, and
  the file name derived from it. The size is not constrained. Scan and import build
  such documents, the editor and a reload from the storage keep them such (lemmas
  \<open>normalize_stored\<close>, \<open>updated_record_stored\<close>, \<open>reload_stored\<close> below).
\<close>

definition stored_document :: "jsval \<Rightarrow> bool" where
  "stored_document b \<longleftrightarrow>
     \<not> nullish b
     \<and> truthy (get_prop b ''id'') \<and> survives_json (get_prop b ''id'')
     \<and> list_all (\<lambda>k. get_prop b k = Str [] \<or> truthy (get_prop b k) \<and> survives_json (get_prop b k))
          [''title'', ''author'', ''field'', ''description'']
     \<and> truthy (get_prop b ''tags'') \<and> survives_json (get_prop b ''tags'')
     \<and> filenameFromPath (get_prop b ''path'') = Inr (get_prop b ''filename'')
     \<and> truthy (get_prop b ''addedAt'') \<and> survives_json (get_prop b ''addedAt'')
     \<and> truthy (get_prop b ''metadataSource'') \<and> survives_json (get_prop b ''metadataSource'')"

text \<open>
  Two documents are equivalent when they agree on id, title, author, field, tags,
  description, path, filename, addedAt and metadataSource, and on the size when the
  first one's is finite; when it is not, the second one's is not finite either.
\<close>

definition same_document :: "jsval \<Rightarrow> jsval \<Rightarrow> bool" where
  "same_document b b' \<longleftrightarrow>
     list_all (\<lambda>k. get_prop b' k = get_prop b k)
       [''id'', ''title'', ''author'', ''field'', ''tags'', ''description'', ''path'',
        ''filename'', ''addedAt'', ''metadataSource'']
     \<and> (if isFinite (get_prop b ''sizeBytes'')
        then get_prop b' ''sizeBytes'' = get_prop b ''sizeBytes''
        else \<not> isFinite (get_prop b' ''sizeBytes''))"

text \<open>The file that the export of the catalog A, B offers: B's size is left out.\<close>

definition export_AB :: jstext where
  "export_AB =
     Doc (JArray
       [JObject [(''id'', JString ''uid''), (''title'', JString ''A''), (''author'', JString []),
                 (''field'', JString []), (''tags'', JArray []), (''description'', JString []),
                 (''path'', JString ''Books/Analysis/a.pdf''), (''sizeBytes'', JNumber 500),
                 (''addedAt'', JNumber 1700000000000), (''metadataSource'', JString ''manifest'')],
        JObject [(''id'', JString ''b''), (''title'', JString []), (''author'', JString []),
                 (''field'', JString []), (''tags'', JArray [JString ''algebra'']),
                 (''description'', JString []), (''path'', JString ''b.pdf''),
                 (''addedAt'', JNumber 1700000000000), (''metadataSource'', JString ''manifest'')]])"

section \<open>Frame properties of the pipeline\<close>

text \<open>
  What a procedure leaves alone: \<open>frame w w'\<close> says that from \<open>w\<close> to \<open>w'\<close> every
  address allocated in \<open>w\<close> keeps its value, and that the references and logs below
  are unchanged. Addresses may have been allocated, and the derived parts (index, facets,
  filtered list, page) may differ.
\<close>

definition frame :: "app \<Rightarrow> app \<Rightarrow> bool" where
  "frame w w' \<longleftrightarrow>
     next_ref w \<le> next_ref w' \<and> (\<forall>a. a < next_ref w \<longrightarrow> store w' a = store w a) \<and>
     books w' = books w \<and> config w' = config w \<and> localStorage w' = localStorage w \<and>
     alerts w' = alerts w \<and> opened w' = opened w \<and> downloads w' = downloads w \<and>
     pdf w' = pdf w \<and> editingId w' = editingId w \<and> activeTags w' = activeTags w \<and>
     loadingIndicator (ui w') = loadingIndicator (ui w)"

lemma frame_refl: "frame w w"
  by (simp add: frame_def)

lemma frame_trans: "frame a b \<Longrightarrow> frame b c \<Longrightarrow> frame a c"
  by (auto simp: frame_def)

lemma frame_alloc: "alloc v w = (w', l) \<Longrightarrow> frame w w' \<and> l = next_ref w \<and> fuse w' = fuse w \<and> ui w' = ui w"
  by (auto simp: alloc_def frame_def)

lemma frame_array_filter:
  "array_filter p l w = (w', r) \<Longrightarrow> frame w w' \<and> fuse w' = fuse w \<and> ui w' = ui w
     \<and> (\<forall>l'. r = Inr l' \<longrightarrow> next_ref w \<le> l')"
  by (auto simp: array_filter_def alloc_def frame_def split: jsval.splits sum.splits)

lemma frame_search_step:
  "search_step H q l w = (w', r) \<Longrightarrow> frame w w' \<and> ui w' = ui w
     \<and> (\<forall>l'. r = Inr l' \<longrightarrow> l' = l \<or> next_ref w \<le> l')"
  unfolding search_step_def
  by (auto simp: alloc_def frame_def split: if_splits option.splits sum.splits prod.splits dest: frame_array_filter)

lemma frame_field_step:
  "field_step f l w = (w', r) \<Longrightarrow> frame w w' \<and> ui w' = ui w
     \<and> (\<forall>l'. r = Inr l' \<longrightarrow> l' = l \<or> next_ref w \<le> l')"
  unfolding field_step_def
  by (auto simp: frame_refl split: if_splits dest: frame_array_filter)

lemma frame_tag_step:
  "tag_step H t l w = (w', r) \<Longrightarrow> frame w w' \<and> ui w' = ui w
     \<and> (\<forall>l'. r = Inr l' \<longrightarrow> l' = l \<or> next_ref w \<le> l')"
  unfolding tag_step_def
  by (auto simp: frame_refl split: if_splits dest: frame_array_filter)

lemma frame_sort_step:
  "sort_step H k l w = (w', r) \<Longrightarrow> n \<le> l \<Longrightarrow> n \<le> next_ref w \<Longrightarrow>
     next_ref w' = next_ref w \<and> (\<forall>a. a < n \<longrightarrow> store w' a = store w a) \<and>
     books w' = books w \<and> config w' = config w \<and> localStorage w' = localStorage w \<and>
     alerts w' = alerts w \<and> opened w' = opened w \<and> downloads w' = downloads w \<and>
     pdf w' = pdf w \<and> editingId w' = editingId w \<and> activeTags w' = activeTags w \<and> ui w' = ui w"
  unfolding sort_step_def
  by (auto split: jsval.splits sum.splits)

lemma frame_renderBooks: "renderBooks xs w = (w', r) \<Longrightarrow> frame w w'"
  by (auto simp: renderBooks_def frame_def split: if_splits)

lemma frame_applyFiltersAndRender:
  assumes "applyFiltersAndRender H w = (w', r)"
  shows "frame w w'"
proof (cases "spread_elems (catalog w)")
  case (Inl e)
  with assms show ?thesis by (simp add: applyFiltersAndRender_def frame_refl)
next
  case (Inr bs)
  obtain w0 l0 where a: "alloc (Arr bs) w = (w0, l0)" by fastforce
  have f0: "frame w w0" and l0: "l0 = next_ref w" and u0: "ui w0 = ui w"
    using frame_alloc[OF a] by auto
  obtain w1 r1 where s1: "search_step H (trim (searchInput (ui w))) l0 w0 = (w1, r1)" by fastforce
  have f1: "frame w0 w1" using frame_search_step[OF s1] by simp
  show ?thesis
  proof (cases r1)
    case (Inl e)
    with assms Inr a s1 have "w' = w1" by (simp add: applyFiltersAndRender_def)
    with f0 f1 show ?thesis by (blast intro: frame_trans)
  next
    case r1: (Inr l1)
    have l1: "next_ref w \<le> l1" using frame_search_step[OF s1] r1 l0 f0 by (auto simp: frame_def)
    obtain w2 r2 where s2: "field_step (fieldFilter (ui w)) l1 w1 = (w2, r2)" by fastforce
    have f2: "frame w1 w2" using frame_field_step[OF s2] by simp
    show ?thesis
    proof (cases r2)
      case (Inl e)
      with assms Inr a s1 r1 s2 have "w' = w2" by (simp add: applyFiltersAndRender_def)
      with f0 f1 f2 show ?thesis by (blast intro: frame_trans)
    next
      case r2: (Inr l2)
      have l2: "next_ref w \<le> l2" using frame_field_step[OF s2] r2 l1 f0 f1 by (auto simp: frame_def)
      obtain w3 r3 where s3: "tag_step H (activeTags w) l2 w2 = (w3, r3)" by fastforce
      have f3: "frame w2 w3" using frame_tag_step[OF s3] by simp
      show ?thesis
      proof (cases r3)
        case (Inl e)
        with assms Inr a s1 r1 s2 r2 s3 have "w' = w3" by (simp add: applyFiltersAndRender_def)
        with f0 f1 f2 f3 show ?thesis by (blast intro: frame_trans)
      next
        case r3: (Inr l3)
        have l3: "next_ref w \<le> l3"
          using frame_tag_step[OF s3] r3 l2 f0 f1 f2 by (auto simp: frame_def)
        have f03: "frame w w3" using f0 f1 f2 f3 by (blast intro: frame_trans)
        obtain w4 r4 where s4: "sort_step H (sortSelect (ui w)) l3 w3 = (w4, r4)" by fastforce
        have n3: "next_ref w \<le> next_ref w3" using f03 by (simp add: frame_def)
        have f4: "frame w w4"
          using frame_sort_step[OF s4 l3 n3] f03 by (auto simp: frame_def)
        show ?thesis
        proof (cases r4)
          case (Some e)
          with assms Inr a s1 r1 s2 r2 s3 r3 s4 have "w' = w4" by (simp add: applyFiltersAndRender_def)
          with f4 show ?thesis by simp
        next
          case None
          with assms Inr a s1 r1 s2 r2 s3 r3 s4
          have "renderBooks (elements (store w4 l3)) (w4\<lparr>filteredBooks := l3\<rparr>) = (w', r)"
            by (simp add: applyFiltersAndRender_def)
          from frame_renderBooks[OF this] have "frame (w4\<lparr>filteredBooks := l3\<rparr>) w'" .
          moreover have "frame w (w4\<lparr>filteredBooks := l3\<rparr>)" using f4 by (simp add: frame_def)
          ultimately show ?thesis by (blast intro: frame_trans)
        qed
      qed
    qed
  qed
qed

lemma frame_initFuse: "initFuse H w = (w', r) \<Longrightarrow> frame w w' \<and> ui w' = ui w"
  by (auto simp: initFuse_def frame_def split: if_splits option.splits)

lemma frame_rebuildFacets: "rebuildFacets H w = (w', r) \<Longrightarrow> frame w w'"
  by (auto simp: rebuildFacets_def frame_def Let_def split: if_splits jsval.splits)

lemma and_then_cases:
  "and_then x f = (w', r) \<Longrightarrow>
     (\<exists>e. x = (w', Some e) \<and> r = Some e) \<or> (\<exists>w1. x = (w1, None) \<and> f w1 = (w', r))"
  by (auto simp: and_then_def split: prod.splits option.splits)

lemma frame_refresh: "refresh H w = (w', r) \<Longrightarrow> frame (saveBooks w) w'"
  unfolding refresh_def
  by (fastforce dest!: and_then_cases dest: frame_initFuse frame_rebuildFacets frame_applyFiltersAndRender intro: frame_trans)

lemma catalog_assign_books: "catalog (assign_books v w) = v"
  by (simp add: assign_books_def alloc_def catalog_def)

lemma books_assign_books: "books (assign_books v w) < next_ref (assign_books v w)"
  by (simp add: assign_books_def alloc_def)

lemma frame_catalog: "frame w w' \<Longrightarrow> books w < next_ref w \<Longrightarrow> catalog w' = catalog w"
  by (simp add: frame_def catalog_def)

lemma refresh_catalog:
  assumes "refresh H w = (w', r)" "books w < next_ref w"
  shows "catalog w' = catalog w \<and> localStorage w' LS_BOOKS = Some (JSON_stringify (catalog w))
         \<and> alerts w' = alerts w"
proof -
  have f: "frame (saveBooks w) w'" using frame_refresh[OF assms(1)] .
  have "books (saveBooks w) < next_ref (saveBooks w)" using assms(2) by (simp add: saveBooks_def)
  from frame_catalog[OF f this] have "catalog w' = catalog w" by (simp add: saveBooks_def catalog_def)
  moreover have "localStorage w' = localStorage (saveBooks w)" "alerts w' = alerts (saveBooks w)" using f by (simp_all add: frame_def)
  ultimately show ?thesis by (simp add: saveBooks_def)
qed

section \<open>Replacing the catalog\<close>

lemma scan_catalog:
  assumes "tryLoadManifest r = Arr items" "items \<noteq> []"
    "map_indexed (normalize H ''manifest'') 0 items = Inr recs"
  shows "catalog (fst (scanBooks H r w)) = Arr recs"
    "localStorage (fst (scanBooks H r w)) LS_BOOKS = Some (JSON_stringify (Arr recs))"
proof -
  let ?w1 = "assign_books (Arr recs) (showLoading True w)"
  obtain w2 r2 where rf: "refresh H ?w1 = (w2, r2)" by fastforce
  have c: "catalog w2 = Arr recs \<and> localStorage w2 LS_BOOKS = Some (JSON_stringify (Arr recs))"
    using refresh_catalog[OF rf books_assign_books] by (simp add: catalog_assign_books)
  have "fst (scanBooks H r w) = w2 \<or> fst (scanBooks H r w) = showLoading False w2"
    using assms rf by (cases r2) (auto simp: scanBooks_def Let_def and_then_def)
  then show "catalog (fst (scanBooks H r w)) = Arr recs"
    "localStorage (fst (scanBooks H r w)) LS_BOOKS = Some (JSON_stringify (Arr recs))"
    using c by (auto simp: showLoading_def catalog_def)
qed

lemma import_catalog:
  assumes "JSON_parse file = Inr (Arr items)"
    "map_indexed (normalize H ''import'') 0 items = Inr recs"
  shows "catalog (importBooksJson H file w) = Arr recs"
    "localStorage (importBooksJson H file w) LS_BOOKS = Some (JSON_stringify (Arr recs))"
proof -
  let ?w1 = "assign_books (Arr recs) w"
  obtain w2 r2 where rf: "refresh H ?w1 = (w2, r2)" by fastforce
  have c: "catalog w2 = Arr recs \<and> localStorage w2 LS_BOOKS = Some (JSON_stringify (Arr recs))"
    using refresh_catalog[OF rf books_assign_books] by (simp add: catalog_assign_books)
  have "\<exists>msg. importBooksJson H file w = alert msg w2"
    using assms rf by (cases r2) (auto simp: importBooksJson_def import_try_def and_then_def)
  then show "catalog (importBooksJson H file w) = Arr recs"
    "localStorage (importBooksJson H file w) LS_BOOKS = Some (JSON_stringify (Arr recs))"
    using c by (auto simp: alert_def catalog_def)
qed

text \<open>An entry normalises exactly when it is not nullish and its path is a string.\<close>

lemma normalize_ok_iff:
  "(\<exists>b. normalize H source i item = Inr b)
     \<longleftrightarrow> \<not> nullish item \<and> (\<exists>s. get_prop item ''path'' = Str s)"
  by (auto simp: normalize_def filenameFromPath_def split: jsval.splits)

lemmas sample_defs =
  sample_host_def blank_page_def doc_C_def app_C_def items_AB_def manifest_AB_def
  records_AB_def initial_app_def empty_storage_def

lemma sample_normalize:
  "map_indexed (normalize sample_host source) 0 items_AB = Inr (records_AB source)"
  by (simp add: sample_defs normalize_def filenameFromPath_def js_or_def)

lemma sample_parse: "JSON_parse (Doc manifest_AB) = Inr (Arr items_AB)"
  by (simp add: sample_defs JSON_parse_def)

text \<open>
  C1 (as amended). Whatever the catalog was: when \<open>scanBooks\<close> obtains a non-empty
  manifest array, or \<open>importBooksJson\<close> obtains any array, and every entry of the array
  normalises, the catalog afterwards, in memory and in storage, is exactly the array of
  the normalized records, in order. Nothing of the previous catalog is part of it.
\<close>

theorem load_replaces_catalog:
  "(tryLoadManifest r = Arr items \<and> items \<noteq> []
      \<and> map_indexed (normalize H ''manifest'') 0 items = Inr recs
    \<longrightarrow> catalog (fst (scanBooks H r w)) = Arr recs
      \<and> localStorage (fst (scanBooks H r w)) LS_BOOKS = Some (JSON_stringify (Arr recs)))
   \<and> (JSON_parse file = Inr (Arr items')
      \<and> map_indexed (normalize H ''import'') 0 items' = Inr recs'
    \<longrightarrow> catalog (importBooksJson H file w) = Arr recs'
      \<and> localStorage (importBooksJson H file w) LS_BOOKS = Some (JSON_stringify (Arr recs')))"
  using scan_catalog import_catalog by blast

theorem load_replaces_catalog_witness:
  "catalog app_C = Arr [doc_C]
   \<and> tryLoadManifest (Response True (Doc manifest_AB)) = Arr items_AB \<and> items_AB \<noteq> []
   \<and> map_indexed (normalize sample_host ''manifest'') 0 items_AB = Inr (records_AB ''manifest'')
   \<and> catalog (fst (scanBooks sample_host (Response True (Doc manifest_AB)) app_C))
       = Arr (records_AB ''manifest'')
   \<and> JSON_parse (Doc manifest_AB) = Inr (Arr items_AB)
   \<and> map_indexed (normalize sample_host ''import'') 0 items_AB = Inr (records_AB ''import'')
   \<and> catalog (importBooksJson sample_host (Doc manifest_AB) app_C) = Arr (records_AB ''import'')"
proof -
  have c: "catalog app_C = Arr [doc_C]"
    by (simp add: catalog_def app_C_def initial_app_def)
  have m: "tryLoadManifest (Response True (Doc manifest_AB)) = Arr items_AB"
    by (simp add: tryLoadManifest_def sample_parse)
  have n: "items_AB \<noteq> []"
    by (simp add: items_AB_def)
  show ?thesis
    using load_replaces_catalog[of "Response True (Doc manifest_AB)" items_AB sample_host
        "records_AB ''manifest''" app_C "Doc manifest_AB" items_AB "records_AB ''import''"]
      c m n sample_normalize sample_parse
    by simp
qed

text \<open>
  The claim as stated fails for the empty array: \<open>scanBooks\<close> obtains it from a response
  whose body is \<open>[]\<close>, its normalized records are the empty list, and the catalog that
  held C still holds C afterwards.
\<close>

theorem scan_empty_array_counterexample:
  "tryLoadManifest (Response True (Doc (JArray []))) = Arr []
   \<and> map_indexed (normalize sample_host ''manifest'') 0 [] = Inr []
   \<and> catalog (fst (scanBooks sample_host (Response True (Doc (JArray []))) app_C)) = Arr [doc_C]
   \<and> Arr [doc_C] \<noteq> Arr []"
  by (simp add: scanBooks_def tryLoadManifest_def JSON_parse_def showLoading_def alert_def
      catalog_def app_C_def initial_app_def)

section \<open>A failed scan\<close>

text \<open>
  C3. Whenever \<open>scanBooks\<close> obtains no manifest (the fetch fails, the response status is
  not a success, the body is empty or no JSON, the body is JSON but no array, or the body
  is the empty array), it returns normally, the user has been shown one more blocking
  notification, the loading indicator is off, and the catalog is what it was: the same
  array with the same contents in memory, and the same storage.
\<close>

theorem scan_failure_leaves_catalog:
  assumes "r = NetworkError \<or> r = Response False body \<or> r = Response True EmptyText
     \<or> r = Response True Garbage \<or> (r = Response True (Doc j) \<and> \<not> is_array (from_json j))
     \<or> r = Response True (Doc (JArray []))"
  shows "snd (scanBooks H r w) = None
     \<and> alerts (fst (scanBooks H r w)) = alerts w @ [NO_MANIFEST]
     \<and> \<not> loadingIndicator (ui (fst (scanBooks H r w)))
     \<and> books (fst (scanBooks H r w)) = books w
     \<and> store (fst (scanBooks H r w)) = store w
     \<and> catalog (fst (scanBooks H r w)) = catalog w
     \<and> localStorage (fst (scanBooks H r w)) = localStorage w"
proof -
  have "tryLoadManifest r = Null \<or> tryLoadManifest r = Arr []"
    using assms by (auto simp: tryLoadManifest_def JSON_parse_def)
  then have "scanBooks H r w = (showLoading False (alert NO_MANIFEST (showLoading True w)), None)"
    by (auto simp: scanBooks_def Let_def)
  then show ?thesis
    by (simp add: showLoading_def alert_def catalog_def)
qed

theorem scan_failure_leaves_catalog_witness:
  "snd (scanBooks sample_host NetworkError app_C) = None
   \<and> alerts (fst (scanBooks sample_host NetworkError app_C)) = [NO_MANIFEST]
   \<and> catalog (fst (scanBooks sample_host NetworkError app_C)) = Arr [doc_C]
   \<and> localStorage (fst (scanBooks sample_host NetworkError app_C)) LS_BOOKS = None"
  using scan_failure_leaves_catalog[of NetworkError EmptyText JNull sample_host app_C]
  by (simp add: catalog_def app_C_def initial_app_def empty_storage_def)

section \<open>A record without a path\<close>

text \<open>
  C5. A manifest whose only entry has a title and no path: \<open>filenameFromPath\<close> throws.
  \<open>scanBooks\<close> stops there, with the loading indicator still on and the catalog not
  replaced; \<open>importBooksJson\<close> reports the failure and leaves the catalog alone. The
  record is not accepted.
\<close>

theorem absent_path_throws:
  "filenameFromPath Undefined = Inl TypeError
   \<and> scanBooks H (Response True (Doc (JArray [JObject [(''title'', JString ''A'')]]))) w
     = (showLoading True w, Some TypeError)
   \<and> importBooksJson H (Doc (JArray [JObject [(''title'', JString ''A'')]])) w
     = alert (IMPORT_FAILED @ err_message H TypeError) w"
  by (simp add: scanBooks_def tryLoadManifest_def JSON_parse_def importBooksJson_def
      import_try_def normalize_def filenameFromPath_def)

theorem absent_path_throws_witness:
  "scanBooks sample_host (Response True (Doc (JArray [JObject [(''title'', JString ''A'')]]))) app_C
     = (showLoading True app_C, Some TypeError)
   \<and> catalog (showLoading True app_C) = Arr [doc_C]
   \<and> catalog (importBooksJson sample_host (Doc (JArray [JObject [(''title'', JString ''A'')]])) app_C)
     = Arr [doc_C]"
  using absent_path_throws[of sample_host app_C]
  by (simp add: showLoading_def alert_def catalog_def app_C_def initial_app_def)

section \<open>The pipeline does not touch the catalog\<close>

text \<open>
  C9. For every state whose catalog array has been allocated, every query, field
  selection, set of active tags and sort key (all read from the state), and whether the
  pipeline completes or throws: after \<open>applyFiltersAndRender\<close>, \<open>state.books\<close> is the same
  array and holds the same documents in the same order. The filters build new arrays
  and the sort runs in place on the copy.
\<close>

theorem pipeline_keeps_catalog:
  assumes "books w < next_ref w"
  shows "books (fst (applyFiltersAndRender H w)) = books w
     \<and> catalog (fst (applyFiltersAndRender H w)) = catalog w"
proof -
  obtain w' r where a: "applyFiltersAndRender H w = (w', r)" by fastforce
  have f: "frame w w'" using frame_applyFiltersAndRender[OF a] .
  then have "books w' = books w" by (simp add: frame_def)
  moreover have "catalog w' = catalog w" using frame_catalog[OF f assms] .
  ultimately show ?thesis using a by simp
qed

text \<open>On the catalog A, B sorted by title: the filtered list is B, A (B has no title);
  the catalog is still A, B.\<close>

lemma sample_pipeline:
  "applyFiltersAndRender sample_host app_AB = (w', r) \<Longrightarrow>
     r = None \<and> store w' (filteredBooks w') = Arr (rev (records_AB ''manifest''))"
  by (auto simp add: applyFiltersAndRender_def spread_elems_def catalog_def app_AB_def
      initial_app_def records_AB_def alloc_def search_step_def field_step_def tag_step_def
      sort_step_def array_sort_def compare_books_def locale_cmp_def sample_host_def
      blank_page_def trim_def renderBooks_def card_ok_def js_or_def to_str_def
      split: if_splits)

theorem pipeline_keeps_catalog_witness:
  "books app_AB < next_ref app_AB
   \<and> catalog app_AB = Arr (records_AB ''manifest'')
   \<and> catalog (fst (applyFiltersAndRender sample_host app_AB)) = Arr (records_AB ''manifest'')
   \<and> store (fst (applyFiltersAndRender sample_host app_AB))
        (filteredBooks (fst (applyFiltersAndRender sample_host app_AB)))
      = Arr (rev (records_AB ''manifest''))"
proof -
  have h: "books app_AB < next_ref app_AB"
    by (simp add: app_AB_def initial_app_def)
  have c: "catalog app_AB = Arr (records_AB ''manifest'')"
    by (simp add: catalog_def app_AB_def initial_app_def)
  obtain w' r where a: "applyFiltersAndRender sample_host app_AB = (w', r)" by fastforce
  show ?thesis
    using pipeline_keeps_catalog[OF h, of sample_host] h c sample_pipeline[OF a] a by simp
qed

section \<open>Saving the configuration\<close>

lemma lookup_set_prop_same: "lookup (set_prop k v kvs) k = Some v"
  by (induction kvs) auto

lemma lookup_set_prop_other: "k' \<noteq> k \<Longrightarrow> lookup (set_prop k v kvs) k' = lookup kvs k'"
  by (induction kvs) auto

lemma saveConfigClick_config:
  "config (fst (saveConfigClick H w)) =
     set_prop ''maxViewerSizeMB'' (saved_maxViewerSizeMB H (maxViewerSizeInput (ui w)))
       (set_prop ''searchThreshold'' (saved_searchThreshold (searchThresholdInput (ui w)))
          (set_prop ''fuzzySearch'' (Bool (fuzzySearchBox (ui w)))
             (set_prop ''rootFolder'' (saved_rootFolder (rootFolderInput (ui w))) (config w))))"
  "localStorage (fst (saveConfigClick H w)) LS_CONFIG
     = Some (JSON_stringify (Obj (config (fst (saveConfigClick H w)))))"
proof -
  let ?c = "set_prop ''maxViewerSizeMB'' (saved_maxViewerSizeMB H (maxViewerSizeInput (ui w)))
       (set_prop ''searchThreshold'' (saved_searchThreshold (searchThresholdInput (ui w)))
          (set_prop ''fuzzySearch'' (Bool (fuzzySearchBox (ui w)))
             (set_prop ''rootFolder'' (saved_rootFolder (rootFolderInput (ui w))) (config w))))"
  let ?w1 = "saveConfig (w\<lparr>config := ?c\<rparr>)"
  obtain w2 r2 where i: "initFuse H ?w1 = (w2, r2)" by fastforce
  have f: "frame ?w1 w2" using frame_initFuse[OF i] by simp
  have "fst (saveConfigClick H w) = w2 \<or> fst (saveConfigClick H w) = closeConfigModal w2"
    using i by (cases r2) (auto simp: saveConfigClick_def Let_def and_then_def)
  moreover have "config w2 = ?c" "localStorage w2 LS_CONFIG = Some (JSON_stringify (Obj ?c))"
    using f by (simp_all add: frame_def saveConfig_def)
  ultimately show "config (fst (saveConfigClick H w)) = ?c"
    "localStorage (fst (saveConfigClick H w)) LS_CONFIG
     = Some (JSON_stringify (Obj (config (fst (saveConfigClick H w)))))"
    by (auto simp: closeConfigModal_def)
qed

lemma parse_zero: "parseInt10 ''0'' = Num (Fin 0)" "parseFloat ''0'' = Num (Fin 0)"
  by (simp_all add: parseInt10_def parseFloat_def is_space_def is_digit_def digits_value_def scale10_def exponent_part_def)

lemma parse_9999: "parseInt10 ''9999'' = Num (Fin 9999)"
  by (simp add: parseInt10_def is_space_def is_digit_def digits_value_def)

text \<open>
  C6. With 0 typed into the size field, the save handler stores 10, in \<open>state.config\<close>
  and in the storage: \<open>parseInt('0', 10) || 10\<close> is 10, since 0 is falsy, and the
  clamp to 1 is never reached. With 9999 it stores 50.
\<close>

theorem max_viewer_size_zero_saved_as_ten:
  "saved_maxViewerSizeMB H ''0'' = Num (Fin 10)
   \<and> get_prop (Obj (config (fst (saveConfigClick H (with_max_input ''0'' w))))) ''maxViewerSizeMB''
       = Num (Fin 10)
   \<and> localStorage (fst (saveConfigClick H (with_max_input ''0'' w))) LS_CONFIG
       = Some (JSON_stringify (Obj (config (fst (saveConfigClick H (with_max_input ''0'' w))))))
   \<and> get_prop (Obj (config (fst (saveConfigClick H (with_max_input ''9999'' w))))) ''maxViewerSizeMB''
       = Num (Fin 50)"
  by (simp add: saveConfigClick_config lookup_set_prop_same with_max_input_def
      saved_maxViewerSizeMB_def parse_zero parse_9999 js_or_def to_num_def)

theorem max_viewer_size_zero_saved_as_ten_witness:
  "get_prop (Obj (config (fst (saveConfigClick sample_host (with_max_input ''0'' app_C))))) ''maxViewerSizeMB''
       = Num (Fin 10)
   \<and> localStorage (fst (saveConfigClick sample_host (with_max_input ''0'' app_C))) LS_CONFIG
       = Some (Doc (JObject [(''rootFolder'', JString ''Books''), (''fuzzySearch'', JBool True),
            (''searchThreshold'', JNumber (2 / 5)), (''maxViewerSizeMB'', JNumber 10)]))"
  using max_viewer_size_zero_saved_as_ten[of sample_host app_C]
  by (simp add: saveConfigClick_config with_max_input_def app_C_def initial_app_def
      blank_page_def DEFAULT_CONFIG_def saved_maxViewerSizeMB_def saved_searchThreshold_def
      saved_rootFolder_def parse_zero js_or_def to_num_def JSON_stringify_def trim_def is_space_def
      parseFloat_def is_digit_def digits_value_def scale10_def exponent_part_def)

lemma saved_searchThreshold_nonzero: "saved_searchThreshold s \<noteq> Num (Fin 0)"
  by (cases "parseFloat s" rule: truthy.cases) (auto simp: saved_searchThreshold_def js_or_def)

text \<open>
  C10. On configuration save, a threshold input that parses to 0 (or that does not parse)
  is stored as the default 0.4; whatever the input, the stored threshold is never 0; and
  the storage holds the serialisation of exactly that configuration.
\<close>

theorem threshold_zero_saved_as_default:
  "(parseFloat (searchThresholdInput (ui w)) = Num (Fin 0) \<or> parseFloat (searchThresholdInput (ui w)) = Num NaN
      \<longrightarrow> get_prop (Obj (config (fst (saveConfigClick H w)))) ''searchThreshold'' = Num (Fin (2 / 5)))
   \<and> get_prop (Obj (config (fst (saveConfigClick H w)))) ''searchThreshold'' \<noteq> Num (Fin 0)
   \<and> localStorage (fst (saveConfigClick H w)) LS_CONFIG
       = Some (JSON_stringify (Obj (config (fst (saveConfigClick H w)))))"
  using saved_searchThreshold_nonzero[of "searchThresholdInput (ui w)"]
  by (auto simp add: saveConfigClick_config lookup_set_prop_same lookup_set_prop_other
      saved_searchThreshold_def js_or_def)

theorem threshold_zero_saved_as_default_witness:
  "parseFloat (searchThresholdInput (ui (with_threshold_input ''0'' app_C))) = Num (Fin 0)
   \<and> get_prop (Obj (config (fst (saveConfigClick sample_host (with_threshold_input ''0'' app_C)))))
        ''searchThreshold'' = Num (Fin (2 / 5))
   \<and> localStorage (fst (saveConfigClick sample_host (with_threshold_input ''0'' app_C))) LS_CONFIG
       = Some (Doc (JObject [(''rootFolder'', JString ''Books''), (''fuzzySearch'', JBool True),
            (''searchThreshold'', JNumber (2 / 5)), (''maxViewerSizeMB'', JNumber 10)]))"
proof -
  have p: "parseFloat (searchThresholdInput (ui (with_threshold_input ''0'' app_C))) = Num (Fin 0)"
    by (simp add: with_threshold_input_def parse_zero)
  have s: "config (fst (saveConfigClick sample_host (with_threshold_input ''0'' app_C)))
      = [(''rootFolder'', Str ''Books''), (''fuzzySearch'', Bool True),
            (''searchThreshold'', Num (Fin (2 / 5))), (''maxViewerSizeMB'', Num (Fin 10))]"
    by (simp add: saveConfigClick_config with_threshold_input_def app_C_def initial_app_def
      blank_page_def DEFAULT_CONFIG_def saved_maxViewerSizeMB_def saved_searchThreshold_def
      saved_rootFolder_def parse_zero js_or_def to_num_def trim_def is_space_def
      parseInt10_def is_digit_def digits_value_def)
  show ?thesis
    using threshold_zero_saved_as_default[of "with_threshold_input ''0'' app_C" sample_host] p s
    by (simp add: JSON_stringify_def)
qed

section \<open>Viewer eligibility\<close>

lemma isFinite_sizeMB: "isFinite (Num (sizeMB v)) = isFinite v"
  by (cases v rule: isFinite.cases) auto

lemma isFinite_cases: "isFinite v \<Longrightarrow> \<exists>r. v = Num (Fin r)"
  by (cases v rule: isFinite.cases) auto

text \<open>
  C7. For every document and configuration, \<open>openPdf\<close> returns normally and opens the
  document inline exactly when its \<open>sizeBytes\<close> is not a finite number or \<open>sizeBytes\<close>
  divided by 1,048,576 is at most the configured \<open>maxViewerSizeMB\<close>; otherwise, and
  only then, it opens the document in a new browsing context. With the threshold 10, a
  document of 10,485,760 bytes opens inline and one of 10,485,761 bytes externally.
\<close>

theorem viewer_eligibility:
  assumes "\<not> nullish book"
  shows "snd (openPdf H book w) = None
     \<and> (opens_inline H book w (fst (openPdf H book w))
          \<longleftrightarrow> (\<not> isFinite (get_prop book ''sizeBytes'')
               \<or> (\<exists>r. get_prop book ''sizeBytes'' = Num (Fin r)
                     \<and> num_le (Fin (r / 1048576))
                          (to_num H (get_prop (Obj (config w)) ''maxViewerSizeMB'')))))
     \<and> (opens_external H book w (fst (openPdf H book w))
          \<longleftrightarrow> \<not> (\<not> isFinite (get_prop book ''sizeBytes'')
               \<or> (\<exists>r. get_prop book ''sizeBytes'' = Num (Fin r)
                     \<and> num_le (Fin (r / 1048576))
                          (to_num H (get_prop (Obj (config w)) ''maxViewerSizeMB'')))))
     \<and> (get_prop (Obj (config w)) ''maxViewerSizeMB'' = Num (Fin 10)
          \<and> get_prop book ''sizeBytes'' = Num (Fin 10485760)
        \<longrightarrow> opens_inline H book w (fst (openPdf H book w)))
     \<and> (get_prop (Obj (config w)) ''maxViewerSizeMB'' = Num (Fin 10)
          \<and> get_prop book ''sizeBytes'' = Num (Fin 10485761)
        \<longrightarrow> opens_external H book w (fst (openPdf H book w)))"
proof -
  let ?sz = "get_prop book ''sizeBytes''"
  let ?mx = "get_prop (Obj (config w)) ''maxViewerSizeMB''"
  let ?c = "\<not> isFinite ?sz \<or> (\<exists>r. ?sz = Num (Fin r) \<and> num_le (Fin (r / 1048576)) (to_num H ?mx))"
  have a: "allowInline H ?sz ?mx = ?c"
    by (cases ?sz rule: isFinite.cases) (auto simp: allowInline_def)
  have i: "?c \<Longrightarrow> opens_inline H book w (fst (openPdf H book w))
                 \<and> \<not> opens_external H book w (fst (openPdf H book w))"
    using assms a by (simp add: openPdf_def opens_inline_def opens_external_def)
  have e: "\<not> ?c \<Longrightarrow> opens_external H book w (fst (openPdf H book w))
                 \<and> \<not> opens_inline H book w (fst (openPdf H book w))"
    using assms a by (simp add: openPdf_def opens_inline_def opens_external_def)
  have n: "snd (openPdf H book w) = None"
    using assms by (simp add: openPdf_def)
  have b1: "?mx = Num (Fin 10) \<and> ?sz = Num (Fin 10485760) \<longrightarrow> ?c"
    by (simp add: to_num_def)
  have b2: "?mx = Num (Fin 10) \<and> ?sz = Num (Fin 10485761) \<longrightarrow> \<not> ?c"
    by (simp add: to_num_def)
  show ?thesis using n i e b1 b2 by blast
qed

theorem viewer_eligibility_witness:
  "\<not> nullish (doc_sized 10485760) \<and> \<not> nullish (doc_sized 10485761) \<and> \<not> nullish doc_C
   \<and> get_prop (Obj (config app_C)) ''maxViewerSizeMB'' = Num (Fin 10)
   \<and> opens_inline sample_host (doc_sized 10485760) app_C
        (fst (openPdf sample_host (doc_sized 10485760) app_C))
   \<and> opens_external sample_host (doc_sized 10485761) app_C
        (fst (openPdf sample_host (doc_sized 10485761) app_C))
   \<and> \<not> isFinite (get_prop doc_C ''sizeBytes'')
   \<and> opens_inline sample_host doc_C app_C (fst (openPdf sample_host doc_C app_C))"
proof -
  have n: "\<not> nullish (doc_sized 10485760)" "\<not> nullish (doc_sized 10485761)" "\<not> nullish doc_C"
    by (simp_all add: doc_sized_def doc_C_def)
  have m: "get_prop (Obj (config app_C)) ''maxViewerSizeMB'' = Num (Fin 10)"
    by (simp add: app_C_def initial_app_def DEFAULT_CONFIG_def)
  have s: "get_prop (doc_sized 10485760) ''sizeBytes'' = Num (Fin 10485760)"
    "get_prop (doc_sized 10485761) ''sizeBytes'' = Num (Fin 10485761)"
    "\<not> isFinite (get_prop doc_C ''sizeBytes'')"
    by (simp_all add: doc_sized_def doc_C_def)
  show ?thesis
    using viewer_eligibility[OF n(1), of sample_host app_C]
      viewer_eligibility[OF n(2), of sample_host app_C]
      viewer_eligibility[OF n(3), of sample_host app_C] n m s
    by (simp add: to_num_def)
qed

section \<open>Boot on a missing or corrupt catalog\<close>

lemma initFuse_empty: "catalog w = Arr [] \<Longrightarrow> initFuse H w = (w\<lparr>fuse := None\<rparr>, None)"
  by (simp add: initFuse_def)

lemma rebuildFacets_empty:
  "catalog w = Arr [] \<Longrightarrow>
     \<exists>w'. rebuildFacets H w = (w', None) \<and> store w' = store w \<and> books w' = books w
          \<and> next_ref w' = next_ref w \<and> fuse w' = fuse w \<and> activeTags w' = activeTags w
          \<and> alerts w' = alerts w"
  by (simp add: rebuildFacets_def Let_def)

lemma pipeline_empty:
  assumes "catalog w = Arr []" "fuse w = None" "activeTags w = []"
  shows "snd (applyFiltersAndRender H w) = None"
  using assms
  by (simp add: applyFiltersAndRender_def spread_elems_def alloc_def search_step_def
      field_step_def tag_step_def array_filter_def sort_step_def array_sort_def
      renderBooks_def)

lemma loadBooks_fallback:
  assumes "localStorage w LS_BOOKS = None \<or> localStorage w LS_BOOKS = Some EmptyText
           \<or> localStorage w LS_BOOKS = Some Garbage"
  shows "catalog (loadBooks w) = (if localStorage w LS_BOOKS = Some Garbage then Arr [] else catalog w)"
  using assms by (auto simp: loadBooks_def JSON_parse_def catalog_assign_books)

lemma loadConfig_frame:
  "store (loadConfig w) = store w" "books (loadConfig w) = books w"
  "localStorage (loadConfig w) = localStorage w" "activeTags (loadConfig w) = activeTags w"
  "next_ref (loadConfig w) = next_ref w" "alerts (loadConfig w) = alerts w"
  by (auto simp: loadConfig_def split: option.splits jstext.splits sum.splits)

lemma loadBooks_frame: "activeTags (loadBooks w) = activeTags w" "alerts (loadBooks w) = alerts w"
  by (auto simp: loadBooks_def assign_books_def alloc_def split: option.splits jstext.splits sum.splits)

lemma boot_fallback:
  assumes "ls LS_BOOKS = None \<or> ls LS_BOOKS = Some EmptyText \<or> ls LS_BOOKS = Some Garbage"
  shows "snd (boot H (initial_app ls p)) = None \<and> catalog (fst (boot H (initial_app ls p))) = Arr []
     \<and> alerts (fst (boot H (initial_app ls p))) = []"
proof -
  let ?w0 = "initial_app ls p"
  let ?w1 = "loadBooks (loadConfig ?w0)"
  have l: "localStorage (loadConfig ?w0) LS_BOOKS = ls LS_BOOKS"
    by (simp add: loadConfig_frame initial_app_def)
  have c0: "catalog (loadConfig ?w0) = Arr []"
    by (simp add: catalog_def loadConfig_frame) (simp add: initial_app_def)
  have c1: "catalog ?w1 = Arr []"
    using loadBooks_fallback[of "loadConfig ?w0"] assms l c0 by auto
  have a1: "activeTags ?w1 = []"
    by (simp add: loadBooks_frame loadConfig_frame) (simp add: initial_app_def)
  let ?w2 = "?w1\<lparr>fuse := None\<rparr>"
  have i: "initFuse H ?w1 = (?w2, None)" using initFuse_empty[OF c1] .
  have c2: "catalog ?w2 = Arr []" using c1 by (simp add: catalog_def)
  obtain w3 where r: "rebuildFacets H ?w2 = (w3, None)" and s3: "store w3 = store ?w2"
      "books w3 = books ?w2" "fuse w3 = fuse ?w2" "activeTags w3 = activeTags ?w2"
      "alerts w3 = alerts ?w2"
    using rebuildFacets_empty[OF c2, of H] by blast
  have c3: "catalog w3 = Arr []" using c2 s3 by (simp add: catalog_def)
  have f3: "fuse w3 = None" "activeTags w3 = []" using s3 a1 by simp_all
  have p: "snd (applyFiltersAndRender H w3) = None" using pipeline_empty[OF c3 f3] .
  have b: "boot H ?w0 = applyFiltersAndRender H w3"
    using i r by (simp add: boot_def and_then_def)
  have al: "alerts w3 = []"
    using s3 by (simp add: loadBooks_frame loadConfig_frame) (simp add: initial_app_def)
  obtain w4 r4 where a: "applyFiltersAndRender H w3 = (w4, r4)" by fastforce
  have "books ?w1 < next_ref ?w1"
    by (auto simp: loadBooks_def assign_books_def alloc_def loadConfig_frame initial_app_def
        split: option.splits jstext.splits sum.splits)
  then have "books w3 < next_ref w3" using s3 rebuildFacets_empty[OF c2, of H] r by auto
  from frame_catalog[OF frame_applyFiltersAndRender[OF a] this] c3
  have "catalog w4 = Arr []" by simp
  moreover have "alerts w4 = []" using frame_applyFiltersAndRender[OF a] al by (simp add: frame_def)
  ultimately show ?thesis using b p a by simp
qed

text \<open>A stored value that parses is taken as the catalog without validation: when it is
  no array, or an array with a nullish entry, the boot sequence throws.\<close>

lemma boot_throws:
  assumes "ls LS_BOOKS = Some (Doc j)"
    "\<not> is_array (from_json j) \<or> list_ex nullish (elements (from_json j))"
  shows "snd (boot H (initial_app ls p)) \<noteq> None"
proof -
  let ?w0 = "initial_app ls p"
  let ?w1 = "loadBooks (loadConfig ?w0)"
  have l: "localStorage (loadConfig ?w0) LS_BOOKS = Some (Doc j)"
    using assms(1) by (simp add: loadConfig_frame initial_app_def)
  have w1: "?w1 = assign_books (from_json j) (loadConfig ?w0)"
    using l by (simp add: loadBooks_def JSON_parse_def)
  have c1: "catalog ?w1 = from_json j" by (simp add: w1 catalog_assign_books)
  have n1: "books ?w1 < next_ref ?w1" by (simp add: w1 books_assign_books)
  obtain w2 r2 where i: "initFuse H ?w1 = (w2, r2)" by fastforce
  have c2: "catalog w2 = from_json j"
    using frame_catalog[of ?w1 w2] frame_initFuse[OF i] n1 c1 by simp
  have "\<exists>w3. rebuildFacets H w2 = (w3, Some TypeError)"
    using assms(2) c2 by (cases "from_json j") (auto simp: rebuildFacets_def)
  then show ?thesis using i by (cases r2) (auto simp: boot_def and_then_def)
qed

lemma boot_takes_parsed:
  assumes "ls LS_BOOKS = Some (Doc j)"
  shows "catalog (fst (boot H (initial_app ls p))) = from_json j"
proof -
  let ?w1 = "loadBooks (loadConfig (initial_app ls p))"
  have l: "localStorage (loadConfig (initial_app ls p)) LS_BOOKS = Some (Doc j)"
    using assms by (simp add: loadConfig_frame initial_app_def)
  have w1: "?w1 = assign_books (from_json j) (loadConfig (initial_app ls p))"
    using l by (simp add: loadBooks_def JSON_parse_def)
  have c1: "catalog ?w1 = from_json j" by (simp add: w1 catalog_assign_books)
  have n1: "books ?w1 < next_ref ?w1" by (simp add: w1 books_assign_books)
  obtain w' r where b: "boot H (initial_app ls p) = (w', r)" by fastforce
  then have "frame ?w1 w'"
    unfolding boot_def
    by (fastforce dest!: and_then_cases
        dest: frame_initFuse frame_rebuildFacets frame_applyFiltersAndRender
        intro: frame_trans)
  from frame_catalog[OF this n1] show ?thesis using b c1 by simp
qed

text \<open>
  The claim as stated fails for parseable JSON: with the text \<open>null\<close> stored under the
  key, \<open>loadBooks\<close> makes \<open>null\<close> the catalog and \<open>initFuse\<close> throws on its \<open>length\<close>.
\<close>

theorem boot_null_counterexample:
  "catalog_storage (Doc JNull) LS_BOOKS = Some (Doc JNull)
   \<and> JSON_parse (Doc JNull) = Inr Null
   \<and> snd (boot sample_host (initial_app (catalog_storage (Doc JNull)) blank_page))
       = Some TypeError"
  by (simp add: boot_def loadConfig_def loadBooks_def initial_app_def JSON_parse_def
      catalog_storage_def empty_storage_def
      LS_BOOKS_def LS_CONFIG_def assign_books_def alloc_def initFuse_def DEFAULT_CONFIG_def
      catalog_def and_then_def)

text \<open>
  C4 (as amended). For every page and every storage in which the catalog key is absent,
  holds the empty string or holds a text that is no JSON, the boot sequence (loadConfig,
  loadBooks, initFuse, rebuildFacets, applyFiltersAndRender) completes without error,
  the catalog is empty, and the user is shown no notification. A stored text that is
  JSON becomes the catalog as it parses, whatever it is.
\<close>

theorem boot_survives_missing_catalog:
  "(ls LS_BOOKS = None \<or> ls LS_BOOKS = Some EmptyText \<or> ls LS_BOOKS = Some Garbage
    \<longrightarrow> snd (boot H (initial_app ls p)) = None
      \<and> catalog (fst (boot H (initial_app ls p))) = Arr []
      \<and> alerts (fst (boot H (initial_app ls p))) = [])
   \<and> (ls LS_BOOKS = Some (Doc j) \<longrightarrow> catalog (fst (boot H (initial_app ls p))) = from_json j)"
  using boot_fallback boot_takes_parsed by blast

theorem boot_survives_missing_catalog_witness:
  "catalog_storage Garbage LS_BOOKS = Some Garbage
   \<and> snd (boot sample_host (initial_app (catalog_storage Garbage) blank_page)) = None
   \<and> catalog (fst (boot sample_host (initial_app (catalog_storage Garbage) blank_page))) = Arr []
   \<and> alerts (fst (boot sample_host (initial_app (catalog_storage Garbage) blank_page))) = []
   \<and> catalog_storage (Doc (JArray [])) LS_BOOKS = Some (Doc (JArray []))
   \<and> catalog (fst (boot sample_host (initial_app (catalog_storage (Doc (JArray []))) blank_page)))
       = Arr []"
  using boot_survives_missing_catalog[of "catalog_storage Garbage" sample_host blank_page JNull]
    boot_survives_missing_catalog[of "catalog_storage (Doc (JArray []))" sample_host blank_page
      "JArray []"]
  by (simp add: catalog_storage_def)

section \<open>Saving an edit\<close>

text \<open>The name of an index is never \<open>id\<close>: spreading a document keeps its id.\<close>

lemma decimal_not_id: "decimal i \<noteq> ''id''"
proof
  assume a: "decimal i = ''id''"
  show False
  proof (cases "i < 10")
    case True
    then have "length (decimal i) = 1" by (simp add: decimal.simps)
    with a show False by simp
  next
    case False
    then have "decimal i = decimal (i div 10) @ [char_of (48 + i mod 10)]"
      by (subst decimal.simps) simp
    with a have "last (decimal (i div 10) @ [char_of (48 + i mod 10)]) = last ''id''" by simp
    then have "char_of (48 + i mod 10) = CHR ''d''" by simp
    then have "of_char (char_of (48 + i mod 10)) = (of_char (CHR ''d'') :: nat)" by simp
    then have m: "(48 + i mod 10) mod 256 = 100" by simp
    have lt: "i mod 10 < 10" by simp
    then have "(48 + i mod 10) mod 256 = 48 + i mod 10" by simp
    with m have "48 + i mod 10 = 100" by simp
    with lt show False by linarith
  qed
qed

lemma lookup_indexed: "lookup (map (\<lambda>i. (decimal i, f i)) is) ''id'' = None"
  by (induction "is") (auto simp: decimal_not_id)

lemma own_props_id:
  "(case lookup (own_props v) ''id'' of Some x \<Rightarrow> x | None \<Rightarrow> Undefined) = get_prop v ''id''"
  by (cases v) (auto simp: own_props_def lookup_indexed)


lemma updated_record_id: "get_prop (updated_record H form old) ''id'' = get_prop old ''id''"
  by (simp add: updated_record_def set_props_def lookup_set_prop_other own_props_id)

lemma updated_record_source:
  "get_prop (updated_record H form old) ''metadataSource'' = manual_source H (get_prop old ''metadataSource'')"
  by (simp add: updated_record_def set_props_def lookup_set_prop_same)

lemma updated_record_tags:
  "get_prop (updated_record H form old) ''tags'' = form_tags (editTags form)"
  by (simp add: updated_record_def set_props_def lookup_set_prop_same lookup_set_prop_other)

lemma strict_eq_imp: "strict_eq a b \<Longrightarrow> a = b \<and> strict_eq a a"
  by (cases "(a, b)" rule: strict_eq.cases) auto

lemma findIndex_found:
  "findIndex p bs = Inr (Some i) \<Longrightarrow> i < length bs \<and> p (bs ! i) = Inr True"
proof (induction bs arbitrary: i)
  case Nil
  then show ?case by simp
next
  case (Cons b bs)
  then show ?case
    by (cases i) (auto split: sum.splits bool.splits option.splits)
qed

lemma findIndex_update:
  "findIndex p bs = Inr (Some i) \<Longrightarrow> p x = Inr True \<Longrightarrow> findIndex p (bs[i := x]) = Inr (Some i)"
proof (induction bs arbitrary: i)
  case Nil
  then show ?case by simp
next
  case (Cons b bs)
  then show ?case
    by (cases i) (auto split: sum.splits bool.splits option.splits)
qed

lemma editSubmit_found:
  assumes "books w < next_ref w" "catalog w = Arr bs"
    "findIndex (has_id (editingId w)) bs = Inr (Some i)"
  shows "catalog (fst (editSubmit H w)) = Arr (bs[i := updated_record H (ui w) (bs ! i)])"
    "books (fst (editSubmit H w)) < next_ref (fst (editSubmit H w))"
    "localStorage (fst (editSubmit H w)) LS_BOOKS
       = Some (JSON_stringify (Arr (bs[i := updated_record H (ui w) (bs ! i)])))"
proof -
  let ?bs' = "bs[i := updated_record H (ui w) (bs ! i)]"
  let ?wu = "w\<lparr>store := (store w)(books w := Arr ?bs')\<rparr>"
  obtain w2 r2 where rf: "refresh H ?wu = (w2, r2)" by fastforce
  have n: "books ?wu < next_ref ?wu" using assms(1) by simp
  have c: "catalog w2 = Arr ?bs'" "localStorage w2 LS_BOOKS = Some (JSON_stringify (Arr ?bs'))"
    using refresh_catalog[OF rf n] by (simp_all add: catalog_def)
  have f: "frame (saveBooks ?wu) w2" using frame_refresh[OF rf] .
  have n2: "books w2 < next_ref w2" using f n by (simp add: frame_def saveBooks_def)
  have "fst (editSubmit H w) = w2 \<or> fst (editSubmit H w) = closeEditModal w2"
    using assms rf by (cases r2) (auto simp: editSubmit_def and_then_def)
  then show "catalog (fst (editSubmit H w)) = Arr ?bs'"
    "books (fst (editSubmit H w)) < next_ref (fst (editSubmit H w))"
    "localStorage (fst (editSubmit H w)) LS_BOOKS = Some (JSON_stringify (Arr ?bs'))"
    using c n2 by (auto simp: closeEditModal_def catalog_def)
qed

lemma openEditModal_updated:
  assumes "book = updated_record H form old"
  shows "editingId (fst (openEditModal H' book w)) = get_prop book ''id''"
    "store (fst (openEditModal H' book w)) = store w"
    "books (fst (openEditModal H' book w)) = books w"
    "next_ref (fst (openEditModal H' book w)) = next_ref w"
    "snd (openEditModal H' book w) = None"
proof -
  have t: "js_or (get_prop book ''tags'') (Arr []) = form_tags (editTags form)"
    using assms by (simp add: updated_record_tags form_tags_def js_or_def)
  have n: "\<not> nullish book" using assms by (simp add: updated_record_def)
  show "editingId (fst (openEditModal H' book w)) = get_prop book ''id''"
    "store (fst (openEditModal H' book w)) = store w"
    "books (fst (openEditModal H' book w)) = books w"
    "next_ref (fst (openEditModal H' book w)) = next_ref w"
    "snd (openEditModal H' book w) = None"
    using n by (simp_all add: openEditModal_def Let_def t form_tags_def)
qed

text \<open>
  C8. Whenever the submit handler of the editor finds the document with the remembered
  id (at index \<open>i\<close> of an allocated catalog array), the saved document's
  \<open>metadataSource\<close> is the previous value, or \<open>manifest\<close> when that is absent, followed
  by \<open>+manual\<close>; and when the editor is opened again on the saved document and saved
  again, whatever the form then holds, the value ends in \<open>+manual+manual\<close>.
\<close>

theorem metadata_source_suffix:
  assumes "books w < next_ref w" "catalog w = Arr bs"
    "findIndex (has_id (editingId w)) bs = Inr (Some i)"
  shows "let base = to_str H (js_or (get_prop (bs ! i) ''metadataSource'') (Str ''manifest''));
             w1 = fst (editSubmit H w);
             w2 = (fst (openEditModal H (elements (catalog w1) ! i) w1))\<lparr>ui := form\<rparr>;
             w3 = fst (editSubmit H w2)
         in get_prop (elements (catalog w1) ! i) ''metadataSource'' = Str (base @ ''+manual'')
          \<and> get_prop (elements (catalog w3) ! i) ''metadataSource''
              = Str (base @ ''+manual+manual'')"
proof -
  define base where "base = to_str H (js_or (get_prop (bs ! i) ''metadataSource'') (Str ''manifest''))"
  define upd1 where "upd1 = updated_record H (ui w) (bs ! i)"
  define w1 where "w1 = fst (editSubmit H w)"
  define w2 where "w2 = (fst (openEditModal H upd1 w1))\<lparr>ui := form\<rparr>"
  define upd2 where "upd2 = updated_record H form upd1"
  define w3 where "w3 = fst (editSubmit H w2)"
  have i: "i < length bs" and p: "has_id (editingId w) (bs ! i) = Inr True"
    using findIndex_found[OF assms(3)] by simp_all
  have c1: "catalog w1 = Arr (bs[i := upd1])" and n1: "books w1 < next_ref w1"
    using editSubmit_found[OF assms, of H] by (simp_all add: w1_def upd1_def)
  have e1: "elements (catalog w1) ! i = upd1" using c1 i by simp
  have s1: "get_prop upd1 ''metadataSource'' = Str (base @ ''+manual'')"
    by (simp add: upd1_def updated_record_source manual_source_def base_def)
  have id: "strict_eq (get_prop (bs ! i) ''id'') (editingId w)"
    using p by (auto simp: has_id_def split: if_splits)
  have id1: "get_prop upd1 ''id'' = editingId w"
    using strict_eq_imp[OF id] by (simp add: upd1_def updated_record_id)
  have o: "editingId w2 = editingId w" "catalog w2 = Arr (bs[i := upd1])" "books w2 < next_ref w2"
    using openEditModal_updated[of upd1 H "ui w" "bs ! i" H w1] c1 n1 id1
    by (simp_all add: w2_def upd1_def catalog_def)
  have "has_id (editingId w) upd1 = Inr True"
    using id id1 strict_eq_imp[OF id] by (simp add: has_id_def upd1_def updated_record_def)
  then have f2: "findIndex (has_id (editingId w2)) (bs[i := upd1]) = Inr (Some i)"
    using findIndex_update[OF assms(3)] o(1) by simp
  have c3: "catalog w3 = Arr ((bs[i := upd1])[i := upd2])"
    using editSubmit_found(1)[OF o(3) o(2) f2, of H] i by (simp add: w3_def upd2_def w2_def)
  have e3: "elements (catalog w3) ! i = upd2" using c3 i by simp
  have s2: "get_prop upd2 ''metadataSource'' = Str (base @ ''+manual+manual'')"
    by (simp add: upd2_def updated_record_source s1 manual_source_def js_or_def to_str_def)
  show ?thesis
    using e1 s1 e3 s2
    unfolding Let_def base_def[symmetric] w1_def[symmetric]
    by (simp add: w2_def[symmetric] w3_def[symmetric])
qed

theorem metadata_source_suffix_witness:
  "books (with_editing (Str ''c'') app_C) < next_ref (with_editing (Str ''c'') app_C)
   \<and> catalog (with_editing (Str ''c'') app_C) = Arr [doc_C]
   \<and> findIndex (has_id (editingId (with_editing (Str ''c'') app_C))) [doc_C] = Inr (Some 0)
   \<and> get_prop doc_C ''metadataSource'' = Str ''manifest''
   \<and> get_prop (elements (catalog (fst (editSubmit sample_host (with_editing (Str ''c'') app_C)))) ! 0)
        ''metadataSource'' = Str ''manifest+manual''
   \<and> get_prop
        (elements (catalog (fst (editSubmit sample_host
           ((fst (openEditModal sample_host
                    (elements (catalog (fst (editSubmit sample_host (with_editing (Str ''c'') app_C)))) ! 0)
                    (fst (editSubmit sample_host (with_editing (Str ''c'') app_C)))))
              \<lparr>ui := blank_page\<rparr>)))) ! 0)
        ''metadataSource'' = Str ''manifest+manual+manual''"
proof -
  let ?w = "with_editing (Str ''c'') app_C"
  have h1: "books ?w < next_ref ?w"
    by (simp add: with_editing_def app_C_def initial_app_def)
  have h2: "catalog ?w = Arr [doc_C]"
    by (simp add: with_editing_def catalog_def app_C_def initial_app_def)
  have h3: "findIndex (has_id (editingId ?w)) [doc_C] = Inr (Some 0)"
    by (simp add: with_editing_def has_id_def doc_C_def)
  have m: "get_prop doc_C ''metadataSource'' = Str ''manifest''"
    by (simp add: doc_C_def)
  show ?thesis
    using metadata_source_suffix[OF h1 h2 h3, of sample_host blank_page] h1 h2 h3 m
    by (simp add: Let_def js_or_def to_str_def)
qed

section \<open>Export and import round trip\<close>

lemma truthy_defined: "truthy v \<Longrightarrow> v \<noteq> Undefined"
  by auto

lemma keep_truthy:
  "truthy v \<Longrightarrow> survives_json v \<Longrightarrow> js_or (from_json (to_json v)) d = v"
  by (simp add: survives_json_def js_or_def)

lemma keep_or_empty:
  "v = Str [] \<or> truthy v \<and> survives_json v \<Longrightarrow>
     js_or (from_json (to_json v)) (Str []) = v \<and> v \<noteq> Undefined"
  by (auto simp: survives_json_def js_or_def)

lemma path_string:
  "filenameFromPath p = Inr f \<Longrightarrow> \<exists>s. p = Str s \<and> f = Str (last (split_on (CHR ''/'') s))"
  by (auto simp: filenameFromPath_def split: jsval.splits)

lemma roundtrip_one:
  assumes "stored_document b"
  shows "\<exists>m b'. export_record b = Inr m
           \<and> normalize H ''import'' i (from_json (to_json m)) = Inr b' \<and> same_document b b'"
proof -
  let ?g = "get_prop b"
  have nn: "\<not> nullish b" using assms by (simp add: stored_document_def)
  have id: "js_or (from_json (to_json (?g ''id''))) d = ?g ''id''" "?g ''id'' \<noteq> Undefined" for d
    using assms by (auto simp: stored_document_def keep_truthy)
  have tg: "js_or (from_json (to_json (?g ''tags''))) d = ?g ''tags''" "?g ''tags'' \<noteq> Undefined" for d
    using assms by (auto simp: stored_document_def keep_truthy)
  have ad: "js_or (from_json (to_json (?g ''addedAt''))) d = ?g ''addedAt''"
      "?g ''addedAt'' \<noteq> Undefined" for d
    using assms by (auto simp: stored_document_def keep_truthy)
  have ms: "js_or (from_json (to_json (?g ''metadataSource''))) d = ?g ''metadataSource''"
      "?g ''metadataSource'' \<noteq> Undefined" for d
    using assms by (auto simp: stored_document_def keep_truthy)
  have ti: "js_or (from_json (to_json (?g ''title''))) (Str []) = ?g ''title''"
      "?g ''title'' \<noteq> Undefined"
    using assms keep_or_empty[of "?g ''title''"] by (simp_all add: stored_document_def)
  have au: "js_or (from_json (to_json (?g ''author''))) (Str []) = ?g ''author''"
      "?g ''author'' \<noteq> Undefined"
    using assms keep_or_empty[of "?g ''author''"] by (simp_all add: stored_document_def)
  have fi: "js_or (from_json (to_json (?g ''field''))) (Str []) = ?g ''field''"
      "?g ''field'' \<noteq> Undefined"
    using assms keep_or_empty[of "?g ''field''"] by (simp_all add: stored_document_def)
  have de: "js_or (from_json (to_json (?g ''description''))) (Str []) = ?g ''description''"
      "?g ''description'' \<noteq> Undefined"
    using assms keep_or_empty[of "?g ''description''"] by (simp_all add: stored_document_def)
  obtain s where pa: "?g ''path'' = Str s" "?g ''filename'' = Str (last (split_on (CHR ''/'') s))"
    using assms path_string[of "?g ''path''" "?g ''filename''"] by (auto simp: stored_document_def)
  show ?thesis
  proof (cases "isFinite (?g ''sizeBytes'')")
    case True
    then obtain r where r: "?g ''sizeBytes'' = Num (Fin r)" using isFinite_cases by blast
    show ?thesis
      using nn
      by (simp add: export_record_def normalize_def filenameFromPath_def same_document_def
          id tg ad ms ti au fi de pa r)
  next
    case False
    then show ?thesis
      using nn
      by (simp add: export_record_def normalize_def filenameFromPath_def same_document_def
          id tg ad ms ti au fi de pa)
  qed
qed

lemma roundtrip_list:
  assumes "list_all stored_document bs"
  shows "\<exists>ms bs'. map_indexed (\<lambda>i. export_record) j bs = Inr ms
           \<and> map_indexed (normalize H ''import'') k (map (\<lambda>m. from_json (to_json m)) ms) = Inr bs'
           \<and> list_all2 same_document bs bs'"
  using assms
proof (induction bs arbitrary: j k)
  case Nil
  then show ?case by simp
next
  case (Cons b bs)
  obtain m b' where o: "export_record b = Inr m"
      "normalize H ''import'' k (from_json (to_json m)) = Inr b'" "same_document b b'"
    using roundtrip_one[of b H k] Cons.prems by auto
  obtain ms bs' where l: "map_indexed (\<lambda>i. export_record) (Suc j) bs = Inr ms"
      "map_indexed (normalize H ''import'') (Suc k) (map (\<lambda>m. from_json (to_json m)) ms) = Inr bs'"
      "list_all2 same_document bs bs'"
    using Cons.IH[of "Suc j" "Suc k"] Cons.prems by auto
  show ?case using o l by simp
qed

lemma sample_stored: "list_all stored_document (records_AB ''manifest'')"
  by (simp add: records_AB_def stored_document_def survives_json_def filenameFromPath_def)

lemma sample_export:
  "exportBooksJson app_AB = (app_AB\<lparr>downloads := downloads app_AB @ [export_AB]\<rparr>, None)"
  by (simp add: exportBooksJson_def export_text_def catalog_def app_AB_def initial_app_def
      records_AB_def export_record_def JSON_stringify_def export_AB_def)

lemma sample_reimport:
  "catalog (importBooksJson sample_host export_AB app_C) = Arr (records_AB ''manifest'')"
proof -
  have p: "JSON_parse export_AB = Inr (Arr
      [Obj [(''id'', Str ''uid''), (''title'', Str ''A''), (''author'', Str []),
            (''field'', Str []), (''tags'', Arr []), (''description'', Str []),
            (''path'', Str ''Books/Analysis/a.pdf''), (''sizeBytes'', Num (Fin 500)),
            (''addedAt'', Num (Fin 1700000000000)), (''metadataSource'', Str ''manifest'')],
       Obj [(''id'', Str ''b''), (''title'', Str []), (''author'', Str []),
            (''field'', Str []), (''tags'', Arr [Str ''algebra'']), (''description'', Str []),
            (''path'', Str ''b.pdf''), (''addedAt'', Num (Fin 1700000000000)),
            (''metadataSource'', Str ''manifest'')]])"
    by (simp add: JSON_parse_def export_AB_def)
  show ?thesis
    by (rule import_catalog(1)[OF p])
       (simp add: normalize_def filenameFromPath_def js_or_def records_AB_def)
qed

lemma from_json_defined: "from_json j \<noteq> Undefined"
  by (cases j) auto

lemma set_prop_fresh: "k \<notin> set (map fst acc) \<Longrightarrow> set_prop k v acc = acc @ [(k, v)]"
  by (induction acc) auto

lemma set_prop_keys: "set (map fst (set_prop k v acc)) = insert k (set (map fst acc))"
  by (induction acc) force+

lemma set_prop_distinct: "distinct (map fst acc) \<Longrightarrow> distinct (map fst (set_prop k v acc))"
proof (induction acc)
  case Nil
  then show ?case by simp
next
  case (Cons a acc)
  then show ?case using set_prop_keys[of k v acc] by (cases a) auto
qed

lemma set_prop_values:
  "(k', v') \<in> set (set_prop k v acc) \<Longrightarrow> (k', v') = (k, v) \<or> (k', v') \<in> set acc"
  by (induction acc) (auto split: if_splits)

lemma clean_props_step:
  "clean_props acc \<Longrightarrow> v \<noteq> Undefined \<Longrightarrow> survives_json v \<Longrightarrow> clean_props (set_prop k v acc)"
  unfolding clean_props_def
  using set_prop_distinct set_prop_values by fastforce

lemma clean_props_foldl:
  assumes "clean_props acc" "\<And>k j. (k, j) \<in> set kvs \<Longrightarrow> survives_json (from_json j)"
  shows "clean_props (foldl (\<lambda>acc (k, j). set_prop k (from_json j) acc) acc kvs)"
  using assms
proof (induction kvs arbitrary: acc)
  case Nil
  then show ?case by simp
next
  case (Cons kv kvs)
  obtain k j where kv: "kv = (k, j)" by (cases kv)
  have c: "clean_props (set_prop k (from_json j) acc)"
    using clean_props_step[OF Cons.prems(1) from_json_defined] Cons.prems(2)[of k j] kv by simp
  have "clean_props (foldl (\<lambda>acc (k, j). set_prop k (from_json j) acc)
          (set_prop k (from_json j) acc) kvs)"
    by (rule Cons.IH[OF c]) (use Cons.prems(2) in auto)
  then show ?case using kv by simp
qed

lemma foldl_set_prop_fresh:
  "distinct (map fst xs) \<Longrightarrow> set (map fst acc) \<inter> set (map fst xs) = {} \<Longrightarrow>
     foldl (\<lambda>acc (k, j). set_prop k (f j) acc) acc xs = acc @ map (\<lambda>(k, j). (k, f j)) xs"
proof (induction xs arbitrary: acc)
  case Nil
  then show ?case by simp
next
  case (Cons x xs)
  obtain k j where x: "x = (k, j)" by (cases x)
  have k: "k \<notin> set (map fst acc)" using Cons.prems(2) x by auto
  have d: "distinct (map fst xs)" using Cons.prems(1) by simp
  have i: "set (map fst (acc @ [(k, f j)])) \<inter> set (map fst xs) = {}"
    using Cons.prems x by auto
  show ?case
    using Cons.IH[OF d i] x by (simp add: set_prop_fresh[OF k])
qed

lemma clean_props_survive:
  assumes "clean_props acc"
  shows "survives_json (Obj acc)"
proof -
  have f: "filter (\<lambda>(k, v). v \<noteq> Undefined) acc = acc"
    using assms by (auto simp: clean_props_def intro!: filter_True)
  have d: "distinct (map fst (map (\<lambda>(k, v). (k, to_json v)) acc))"
    using assms by (simp add: clean_props_def comp_def case_prod_unfold)
  have "foldl (\<lambda>a (k, j). set_prop k (from_json j) a) [] (map (\<lambda>(k, v). (k, to_json v)) acc)
        = map (\<lambda>(k, j). (k, from_json j)) (map (\<lambda>(k, v). (k, to_json v)) acc)"
    using foldl_set_prop_fresh[OF d, of "[]" from_json] by simp
  also have "\<dots> = acc"
    using assms by (auto simp: clean_props_def survives_json_def intro!: map_idI)
  finally show ?thesis by (simp add: survives_json_def f)
qed

lemma from_json_survives: "survives_json (from_json j)"
proof (induction j)
  case (JArray js)
  then show ?case by (simp add: survives_json_def comp_def cong: map_cong)
next
  case (JObject kvs)
  have "clean_props (foldl (\<lambda>acc (k, j). set_prop k (from_json j) acc) [] kvs)"
  proof (rule clean_props_foldl)
    show "clean_props []" by (simp add: clean_props_def)
    fix k j assume "(k, j) \<in> set kvs"
    then show "survives_json (from_json j)" using JObject.IH[of "(k, j)" j] by simp
  qed
  then show ?case using clean_props_survive by simp
qed (simp_all add: survives_json_def)

lemma lookup_mem: "lookup acc k = Some v \<Longrightarrow> (k, v) \<in> set acc"
  by (induction acc) (auto split: if_splits)

lemma get_prop_from_json:
  "get_prop (from_json j) k = Undefined \<or> survives_json (get_prop (from_json j) k)"
proof (cases j)
  case (JObject kvs)
  have c: "clean_props (foldl (\<lambda>acc (k, j). set_prop k (from_json j) acc) [] kvs)"
    by (rule clean_props_foldl) (simp_all add: clean_props_def from_json_survives)
  show ?thesis
  proof (cases "lookup (foldl (\<lambda>acc (k, j). set_prop k (from_json j) acc) [] kvs) k")
    case None
    then show ?thesis by (simp add: JObject)
  next
    case (Some v)
    from lookup_mem[OF Some] c have "survives_json (snd (k, v))"
      unfolding clean_props_def by blast
    then show ?thesis using Some by (simp add: JObject)
  qed
qed (simp_all add: survives_json_def)

lemma js_or_survives:
  "v = Undefined \<or> survives_json v \<Longrightarrow> truthy d \<Longrightarrow> survives_json d \<Longrightarrow>
     truthy (js_or v d) \<and> survives_json (js_or v d)"
  by (auto simp: js_or_def)

lemma js_or_empty:
  "v = Undefined \<or> survives_json v \<Longrightarrow>
     js_or v (Str []) = Str [] \<or> truthy (js_or v (Str [])) \<and> survives_json (js_or v (Str []))"
  by (auto simp: js_or_def)

text \<open>Every record that a scan or an import builds from a JSON entry is a stored document.\<close>

lemma normalize_stored:
  assumes "normalize H source i (from_json j) = Inr b"
    "uniqueId H i \<noteq> []" "Date_now H i \<noteq> 0" "source \<noteq> []"
  shows "stored_document b"
proof -
  let ?g = "get_prop (from_json j)"
  have nn: "\<not> nullish (from_json j)" using assms(1) by (auto simp: normalize_def split: if_splits)
  obtain f where f: "filenameFromPath (?g ''path'') = Inr f"
    using assms(1) nn by (auto simp: normalize_def split: sum.splits)
  have id: "truthy (js_or (?g ''id'') (Str (uniqueId H i)))
            \<and> survives_json (js_or (?g ''id'') (Str (uniqueId H i)))"
    using js_or_survives[OF get_prop_from_json] assms(2) by (simp add: survives_json_def)
  have tg: "truthy (js_or (?g ''tags'') (Arr [])) \<and> survives_json (js_or (?g ''tags'') (Arr []))"
    using js_or_survives[OF get_prop_from_json] by (simp add: survives_json_def)
  have ad: "truthy (js_or (?g ''addedAt'') (Num (Fin (Date_now H i))))
            \<and> survives_json (js_or (?g ''addedAt'') (Num (Fin (Date_now H i))))"
    using js_or_survives[OF get_prop_from_json] assms(3) by (simp add: survives_json_def)
  have ms: "truthy (js_or (?g ''metadataSource'') (Str source))
            \<and> survives_json (js_or (?g ''metadataSource'') (Str source))"
    using js_or_survives[OF get_prop_from_json] assms(4) by (simp add: survives_json_def)
  have b: "b = Obj
               [(''id'', js_or (?g ''id'') (Str (uniqueId H i))),
                (''title'', js_or (?g ''title'') (Str [])),
                (''author'', js_or (?g ''author'') (Str [])),
                (''field'', js_or (?g ''field'') (Str [])),
                (''tags'', js_or (?g ''tags'') (Arr [])),
                (''description'', js_or (?g ''description'') (Str [])),
                (''path'', ?g ''path''),
                (''filename'', f),
                (''sizeBytes'',
                   if is_number (?g ''sizeBytes'') then ?g ''sizeBytes''
                   else Num NaN),
                (''addedAt'', js_or (?g ''addedAt'') (Num (Fin (Date_now H i)))),
                (''metadataSource'', js_or (?g ''metadataSource'') (Str source))]"
    using assms(1) nn f by (simp add: normalize_def)
  show ?thesis
    unfolding b stored_document_def
    using id tg ad ms f js_or_empty[OF get_prop_from_json, of j]
    by simp
qed

text \<open>Saving an edit keeps a stored document stored.\<close>

lemma form_tags_survive: "survives_json (form_tags s)"
  by (simp add: form_tags_def survives_json_def comp_def)

lemma updated_record_stored:
  assumes "stored_document (Obj kvs)"
  shows "stored_document (updated_record H form (Obj kvs))"
proof -
  let ?u = "updated_record H form (Obj kvs)"
  have same: "get_prop ?u ''id'' = get_prop (Obj kvs) ''id''"
    "get_prop ?u ''path'' = get_prop (Obj kvs) ''path''"
    "get_prop ?u ''filename'' = get_prop (Obj kvs) ''filename''"
    "get_prop ?u ''addedAt'' = get_prop (Obj kvs) ''addedAt''"
    by (simp_all add: updated_record_def set_props_def lookup_set_prop_other own_props_def)
  have new: "get_prop ?u ''title'' = Str (trim (editTitle form))"
    "get_prop ?u ''author'' = Str (trim (editAuthor form))"
    "get_prop ?u ''field'' = Str (trim (editField form))"
    "get_prop ?u ''description'' = Str (trim (editDescription form))"
    "get_prop ?u ''tags'' = form_tags (editTags form)"
    "get_prop ?u ''metadataSource'' = manual_source H (get_prop (Obj kvs) ''metadataSource'')"
    by (simp_all add: updated_record_def set_props_def lookup_set_prop_same lookup_set_prop_other)
  have n: "\<not> nullish ?u" by (simp add: updated_record_def)
  have s: "survives_json (Str x)" for x by (simp add: survives_json_def)
  have t: "truthy (form_tags (editTags form))" by (simp add: form_tags_def)
  show ?thesis
    using assms n t form_tags_survive s
    unfolding stored_document_def
    by (simp add: same new manual_source_def)
qed

lemma lookup_map_filter:
  "distinct (map fst kvs) \<Longrightarrow>
     lookup (map (\<lambda>(k, v). (k, f v)) (filter (\<lambda>(k, v). v \<noteq> Undefined) kvs)) k
       = (case lookup kvs k of
            Some v \<Rightarrow> if v = Undefined then None else Some (f v)
          | None \<Rightarrow> None)"
proof (induction kvs)
  case Nil
  then show ?case by simp
next
  case (Cons a kvs)
  obtain k' v' where a: "a = (k', v')" by (cases a)
  have n: "k' = k \<Longrightarrow> lookup kvs k = None"
    using Cons.prems a by (induction kvs) auto
  show ?case using Cons a n by (auto split: option.splits)
qed

lemma keys_map_filter:
  "map fst (map (\<lambda>(k, v). (k, f v)) (filter P kvs)) = map fst (filter P kvs)"
  by (induction kvs) auto

lemma reload_object:
  assumes "distinct (map fst kvs)"
  shows "from_json (to_json (Obj kvs))
         = Obj (map (\<lambda>(k, v). (k, from_json (to_json v))) (filter (\<lambda>(k, v). v \<noteq> Undefined) kvs))"
proof -
  let ?xs = "map (\<lambda>(k, v). (k, to_json v)) (filter (\<lambda>(k, v). v \<noteq> Undefined) kvs)"
  have "distinct (map fst (filter (\<lambda>(k, v). v \<noteq> Undefined) kvs))"
    using assms by (simp add: distinct_map_filter)
  then have d: "distinct (map fst ?xs)" by (simp only: keys_map_filter)
  have "foldl (\<lambda>a (k, j). set_prop k (from_json j) a) [] ?xs
        = map (\<lambda>(k, j). (k, from_json j)) ?xs"
    using foldl_set_prop_fresh[OF d, of "[]" from_json] by simp
  also have "\<dots> = map (\<lambda>(k, v). (k, from_json (to_json v))) (filter (\<lambda>(k, v). v \<noteq> Undefined) kvs)"
    by (simp add: comp_def case_prod_unfold)
  finally show ?thesis by simp
qed

lemma reload_same:
  assumes "distinct (map fst kvs)" "get_prop (Obj kvs) k \<noteq> Undefined"
    "survives_json (get_prop (Obj kvs) k)"
  shows "get_prop (from_json (to_json (Obj kvs))) k = get_prop (Obj kvs) k"
proof -
  obtain v where v: "lookup kvs k = Some v" "v \<noteq> Undefined" "from_json (to_json v) = v"
    using assms(2,3) by (auto simp: survives_json_def split: option.splits)
  have "lookup (map (\<lambda>(k, v). (k, from_json (to_json v))) (filter (\<lambda>(k, v). v \<noteq> Undefined) kvs)) k
        = Some v"
    using lookup_map_filter[OF assms(1), of "\<lambda>v. from_json (to_json v)" k] v by simp
  then show ?thesis
    unfolding reload_object[OF assms(1)] using v(1) by simp
qed

text \<open>Saving a stored document to the storage and loading it again keeps it stored.\<close>

lemma reload_stored:
  assumes "stored_document (Obj kvs)" "distinct (map fst kvs)"
  shows "stored_document (from_json (to_json (Obj kvs)))"
proof -
  let ?g = "get_prop (Obj kvs)"
  let ?g' = "get_prop (from_json (to_json (Obj kvs)))"
  have s: "survives_json (Str x)" for x by (simp add: survives_json_def)
  have t: "?g' k = ?g k" if "?g k = Str [] \<or> truthy (?g k) \<and> survives_json (?g k)" for k
  proof -
    have "?g k \<noteq> Undefined \<and> survives_json (?g k)" using that s by auto
    then show ?thesis using reload_same[OF assms(2), of k] by blast
  qed
  have u: "?g' k = ?g k" if "truthy (?g k)" "survives_json (?g k)" for k
  proof -
    have "?g k \<noteq> Undefined" using that(1) by auto
    then show ?thesis using reload_same[OF assms(2), of k] that(2) by blast
  qed
  obtain p where p: "?g ''path'' = Str p" "?g ''filename'' = Str (last (split_on (CHR ''/'') p))"
    using assms(1) path_string unfolding stored_document_def by blast
  have pf: "?g' ''path'' = ?g ''path''" "?g' ''filename'' = ?g ''filename''"
  proof -
    have "?g ''path'' \<noteq> Undefined \<and> survives_json (?g ''path'')"
      "?g ''filename'' \<noteq> Undefined \<and> survives_json (?g ''filename'')"
      unfolding p using s by simp_all
    then show "?g' ''path'' = ?g ''path''" "?g' ''filename'' = ?g ''filename''"
      using reload_same[OF assms(2)] by blast+
  qed
  have e: "?g' ''id'' = ?g ''id''" "?g' ''tags'' = ?g ''tags''" "?g' ''addedAt'' = ?g ''addedAt''"
    "?g' ''metadataSource'' = ?g ''metadataSource''"
    using assms(1) unfolding stored_document_def by (blast intro: u)+
  have f: "?g' ''title'' = ?g ''title''" "?g' ''author'' = ?g ''author''"
    "?g' ''field'' = ?g ''field''" "?g' ''description'' = ?g ''description''"
    using assms(1) unfolding stored_document_def list.pred_inject by (blast intro: t)+
  have n: "\<not> nullish (from_json (to_json (Obj kvs)))"
    by (simp add: reload_object[OF assms(2)])
  show ?thesis
    using assms(1) n
    unfolding stored_document_def
    by (simp only: pf e f list.pred_inject) simp
qed

text \<open>
  C2. For every catalog of stored documents and every state that the application is in
  when the file is chosen: \<open>exportBooksJson\<close> offers a file, and \<open>importBooksJson\<close> of that
  file yields a catalog with as many documents, in the same order, each equivalent to
  the one exported: id, title, author, field, tags, description, path, addedAt and
  metadataSource are kept, the filename is derived from the path as before, a finite
  size is kept and a size that is not finite is not finite afterwards.
\<close>

theorem export_import_roundtrip:
  assumes "catalog w = Arr bs" "list_all stored_document bs"
  shows "\<exists>t bs'. exportBooksJson w = (w\<lparr>downloads := downloads w @ [t]\<rparr>, None)
           \<and> catalog (importBooksJson H t w') = Arr bs'
           \<and> list_all2 same_document bs bs'"
proof -
  obtain ms bs' where l: "map_indexed (\<lambda>i. export_record) 0 bs = Inr ms"
      "map_indexed (normalize H ''import'') 0 (map (\<lambda>m. from_json (to_json m)) ms) = Inr bs'"
      "list_all2 same_document bs bs'"
    using roundtrip_list[OF assms(2), of 0 H 0] by auto
  let ?t = "JSON_stringify (Arr ms)"
  have e: "exportBooksJson w = (w\<lparr>downloads := downloads w @ [?t]\<rparr>, None)"
    using assms(1) l(1) by (simp add: exportBooksJson_def export_text_def)
  have p: "JSON_parse ?t = Inr (Arr (map (\<lambda>m. from_json (to_json m)) ms))"
    by (simp add: JSON_stringify_def JSON_parse_def comp_def)
  have "catalog (importBooksJson H ?t w') = Arr bs'"
    using import_catalog(1)[OF p l(2)] .
  then show ?thesis using e l(3) by blast
qed

theorem export_import_roundtrip_witness:
  "catalog app_AB = Arr (records_AB ''manifest'')
   \<and> list_all stored_document (records_AB ''manifest'')
   \<and> exportBooksJson app_AB = (app_AB\<lparr>downloads := downloads app_AB @ [export_AB]\<rparr>, None)
   \<and> catalog (importBooksJson sample_host export_AB app_C) = Arr (records_AB ''manifest'')
   \<and> list_all2 same_document (records_AB ''manifest'') (records_AB ''manifest'')"
proof -
  have c: "catalog app_AB = Arr (records_AB ''manifest'')"
    by (simp add: catalog_def app_AB_def initial_app_def)
  obtain t bs' where o:
      "exportBooksJson app_AB = (app_AB\<lparr>downloads := downloads app_AB @ [t]\<rparr>, None)"
      "catalog (importBooksJson sample_host t app_C) = Arr bs'"
      "list_all2 same_document (records_AB ''manifest'') bs'"
    using export_import_roundtrip[OF c sample_stored, of sample_host app_C] by blast
  have "downloads (app_AB\<lparr>downloads := downloads app_AB @ [t]\<rparr>)
        = downloads (app_AB\<lparr>downloads := downloads app_AB @ [export_AB]\<rparr>)"
    using o(1) sample_export by simp
  then have t: "t = export_AB" by simp
  then have "bs' = records_AB ''manifest''" using o(2) sample_reimport by simp
  then show ?thesis using c sample_stored sample_export sample_reimport o(3) by simp
qed

end
